theory Spec2Isabelle
  imports Main
begin

section \<open>JavaScript values seen by the chat composable\<close>

text \<open>
  Text is a list of bytes (UTF-8): the line feed and the ASCII markers the code looks
  for never occur inside a multi-byte sequence, so splitting, prefix tests and substring
  tests agree with the ones on JavaScript strings. \<open>TextDecoder.decode\<close> in streaming mode
  is the identity on such text.

  \<open>JSON.parse\<close> returns a value of type \<open>any\<close>; the code reads properties of it and
  tests it for truthiness, so the value is modelled as it is at run time. A JSON object
  is the association list of its properties, each key once; a number is an integer, as
  the citation ids of this protocol are.
\<close>

datatype json =
    JNull
  | JBool bool
  | JNum int
  | JStr string
  | JArr "json list"
  | JObj "(string \<times> json) list"

text \<open>
  A thrown value. \<open>ErrorObj m\<close> is an instance of \<open>Error\<close> (also of its subclasses
  \<open>TypeError\<close> and \<open>SyntaxError\<close>) with message \<open>m\<close>; \<open>NonError\<close> is any other thrown value.
\<close>

datatype thrown = ErrorObj string | NonError

text \<open>The message the two catch blocks store: \<open>e instanceof Error ? e.message : fallback\<close>.\<close>

fun message_or :: "string \<Rightarrow> thrown \<Rightarrow> string" where
  "message_or fallback (ErrorObj m) = m"
| "message_or fallback NonError = fallback"

fun js_truthy :: "json \<Rightarrow> bool" where
  "js_truthy JNull = False"
| "js_truthy (JBool b) = b"
| "js_truthy (JNum n) = (n \<noteq> 0)"
| "js_truthy (JStr s) = (s \<noteq> [])"
| "js_truthy (JArr xs) = True"
| "js_truthy (JObj kvs) = True"

text \<open>Truthiness of the result of a property read; \<open>None\<close> is \<open>undefined\<close>.\<close>

fun truthy_opt :: "json option \<Rightarrow> bool" where
  "truthy_opt None = False"
| "truthy_opt (Some v) = js_truthy v"

text \<open>
  The read \<open>data.p\<close> for one of the property names this code uses (none of them is defined
  on a prototype): a \<open>TypeError\<close> on \<open>null\<close>, the property of an object, \<open>undefined\<close> on
  every other value.
\<close>

definition null_read_error :: "string \<Rightarrow> thrown" where
  "null_read_error p =
     ErrorObj (''Cannot read properties of null (reading '' @ [CHR 0x27] @ p @ [CHR 0x27] @ '')'')"

fun js_prop :: "json \<Rightarrow> string \<Rightarrow> thrown + json option" where
  "js_prop JNull p = Inl (null_read_error p)"
| "js_prop (JObj kvs) p = Inr (map_of kvs p)"
| "js_prop v p = Inr None"

fun isArray :: "json \<Rightarrow> bool" where
  "isArray (JArr xs) = True"
| "isArray v = False"

fun array_elements :: "json \<Rightarrow> json list" where
  "array_elements (JArr xs) = xs"
| "array_elements v = []"

subsection \<open>String conversion\<close>

definition digit_char :: "nat \<Rightarrow> char" where
  "digit_char d = ''0123456789'' ! d"

function string_of_nat :: "nat \<Rightarrow> string" where
  "string_of_nat n =
     (if n < 10 then [digit_char n] else string_of_nat (n div 10) @ [digit_char (n mod 10)])"
  by pat_completeness auto
termination
  by (relation "measure (\<lambda>n. n)") auto

definition string_of_int :: "int \<Rightarrow> string" where
  "string_of_int i = (if i < 0 then CHR ''-'' # string_of_nat (nat (- i)) else string_of_nat (nat i))"

fun join_comma :: "string list \<Rightarrow> string" where
  "join_comma [] = []"
| "join_comma [x] = x"
| "join_comma (x # y # ys) = x @ '','' @ join_comma (y # ys)"

text \<open>
  \<open>ToString\<close>, as string concatenation with \<open>+\<close> and \<open>localStorage.setItem\<close> apply it.
  An array is its elements joined by commas, \<open>null\<close> elements rendered empty.
\<close>

fun js_to_string :: "json \<Rightarrow> string" where
  "js_to_string JNull = ''null''"
| "js_to_string (JBool b) = (if b then ''true'' else ''false'')"
| "js_to_string (JNum n) = string_of_int n"
| "js_to_string (JStr s) = s"
| "js_to_string (JArr xs) =
     join_comma (map (\<lambda>x. if x = JNull then [] else js_to_string x) xs)"
| "js_to_string (JObj kvs) = ''[object Object]''"

subsection \<open>String operations\<close>

definition startsWith :: "string \<Rightarrow> string \<Rightarrow> bool" where
  "startsWith line p = (take (length p) line = p)"

text \<open>\<open>hay.includes(needle)\<close>: the needle occurs at some position of the haystack.\<close>

fun includes_str :: "string \<Rightarrow> string \<Rightarrow> bool" where
  "includes_str [] needle = (needle = [])"
| "includes_str (c # cs) needle = (startsWith (c # cs) needle \<or> includes_str cs needle)"

text \<open>
  \<open>s.split("\n")\<close>: never empty; the last element is the text after the last line feed.
  The result of the recursive call is never empty, so the first branch of the inner
  \<open>case\<close> is not taken.
\<close>

fun split_lines :: "string \<Rightarrow> string list" where
  "split_lines [] = [[]]"
| "split_lines (c # cs) =
     (if c = CHR 0x0A then [] # split_lines cs
      else (case split_lines cs of [] \<Rightarrow> [[c]] | l # ls \<Rightarrow> (c # l) # ls))"

definition is_space :: "char \<Rightarrow> bool" where
  "is_space c = (c \<in> set [CHR 0x20, CHR 0x09, CHR 0x0A, CHR 0x0B, CHR 0x0C, CHR 0x0D])"

text \<open>\<open>s.trim()\<close>, for the white space of ASCII.\<close>

definition trim :: "string \<Rightarrow> string" where
  "trim s = rev (dropWhile is_space (rev (dropWhile is_space s)))"

section \<open>Data model\<close>

datatype role = User | Assistant

text \<open>
  The interface \<open>Message\<close>. The fields \<open>citations\<close> and \<open>isClarification\<close> are optional
  (\<open>None\<close> when the property is absent, as on a user message). A citation is kept as the
  JSON value that arrived: the stream handler attaches the parsed array as it is.
\<close>

record message =
  message_id :: string
  role :: role
  content :: string
  citations :: "json list option"
  isClarification :: "bool option"

text \<open>
  The refs of \<open>useChat\<close>, together with the browser environment it touches:
  \<open>hasWindow\<close> is \<open>typeof window !== "undefined"\<close> and \<open>storage\<close> is the entry of
  \<open>localStorage\<close> under \<open>STORAGE_KEY\<close>. The ref \<open>filters\<close> only travels in the request
  body and is left out.
\<close>

record session =
  messages :: "message list"
  input :: string
  isLoading :: bool
  error :: "string option"
  currentCitations :: "json list"
  selectedCitation :: "json option"
  conversationId :: "json option"
  hasWindow :: bool
  storage :: "string option"

definition NO_INFO_MARKER :: string where
  "NO_INFO_MARKER =
     [CHR 0xE6, CHR 0xA0, CHR 0xB9, CHR 0xE6, CHR 0x8D, CHR 0xAE, CHR 0xE4, CHR 0xBD, CHR 0xA0,
      CHR 0xE7, CHR 0x9A, CHR 0x84, CHR 0xE7, CHR 0xAC, CHR 0x94, CHR 0xE8, CHR 0xAE, CHR 0xB0,
      CHR 0xEF, CHR 0xBC, CHR 0x8C, CHR 0xE6, CHR 0x88, CHR 0x91, CHR 0xE6, CHR 0xB2, CHR 0xA1,
      CHR 0xE6, CHR 0x9C, CHR 0x89, CHR 0xE6, CHR 0x89, CHR 0xBE, CHR 0xE5, CHR 0x88, CHR 0xB0,
      CHR 0xE7, CHR 0x9B, CHR 0xB8, CHR 0xE5, CHR 0x85, CHR 0xB3, CHR 0xE4, CHR 0xBF, CHR 0xA1,
      CHR 0xE6, CHR 0x81, CHR 0xAF]"

definition FAILURE_TEXT :: string where
  "FAILURE_TEXT =
     [CHR 0xE6, CHR 0x8A, CHR 0xB1, CHR 0xE6, CHR 0xAD, CHR 0x89, CHR 0xEF, CHR 0xBC, CHR 0x8C,
      CHR 0xE5, CHR 0x8F, CHR 0x91, CHR 0xE7, CHR 0x94, CHR 0x9F, CHR 0xE4, CHR 0xBA, CHR 0x86,
      CHR 0xE9, CHR 0x94, CHR 0x99, CHR 0xE8, CHR 0xAF, CHR 0xAF, CHR 0xE3, CHR 0x80, CHR 0x82,
      CHR 0xE8, CHR 0xAF, CHR 0xB7, CHR 0xE7, CHR 0xA8, CHR 0x8D, CHR 0xE5, CHR 0x90, CHR 0x8E,
      CHR 0xE5, CHR 0x86, CHR 0x8D, CHR 0xE8, CHR 0xAF, CHR 0x95, CHR 0xE3, CHR 0x80, CHR 0x82]"

definition RESTORE_FAILED :: string where
  "RESTORE_FAILED =
     [CHR 0xE6, CHR 0x81, CHR 0xA2, CHR 0xE5, CHR 0xA4, CHR 0x8D, CHR 0xE4, CHR 0xBC, CHR 0x9A,
      CHR 0xE8, CHR 0xAF, CHR 0x9D, CHR 0xE5, CHR 0xA4, CHR 0xB1, CHR 0xE8, CHR 0xB4, CHR 0xA5]"

definition LOAD_FAILED :: string where
  "LOAD_FAILED =
     [CHR 0xE5, CHR 0x8A, CHR 0xA0, CHR 0xE8, CHR 0xBD, CHR 0xBD, CHR 0xE5, CHR 0x8E, CHR 0x86,
      CHR 0xE5, CHR 0x8F, CHR 0xB2, CHR 0xE4, CHR 0xBC, CHR 0x9A, CHR 0xE8, CHR 0xAF, CHR 0x9D,
      CHR 0xE5, CHR 0xA4, CHR 0xB1, CHR 0xE8, CHR 0xB4, CHR 0xA5, CHR '':'', CHR '' '']"

definition CREATE_FAILED :: string where
  "CREATE_FAILED =
     [CHR 0xE5, CHR 0x88, CHR 0x9B, CHR 0xE5, CHR 0xBB, CHR 0xBA, CHR 0xE4, CHR 0xBC, CHR 0x9A,
      CHR 0xE8, CHR 0xAF, CHR 0x9D, CHR 0xE5, CHR 0xA4, CHR 0xB1, CHR 0xE8, CHR 0xB4, CHR 0xA5,
      CHR '':'', CHR '' '']"

definition CREATE_MISSING_ID :: string where
  "CREATE_MISSING_ID =
     CREATE_FAILED @
     [CHR 0xE5, CHR 0x93, CHR 0x8D, CHR 0xE5, CHR 0xBA, CHR 0x94, CHR 0xE7, CHR 0xBC, CHR 0xBA,
      CHR 0xE5, CHR 0xB0, CHR 0x91] @ '' conversation_id''"

definition NEW_CONVERSATION_FAILED :: string where
  "NEW_CONVERSATION_FAILED =
     [CHR 0xE5, CHR 0x88, CHR 0x9B, CHR 0xE5, CHR 0xBB, CHR 0xBA, CHR 0xE6, CHR 0x96, CHR 0xB0,
      CHR 0xE5, CHR 0xAF, CHR 0xB9, CHR 0xE8, CHR 0xAF, CHR 0x9D, CHR 0xE5, CHR 0xA4, CHR 0xB1,
      CHR 0xE8, CHR 0xB4, CHR 0xA5]"

section \<open>Conversation identity\<close>

definition persistConversationId :: "json option \<Rightarrow> session \<Rightarrow> session" where
  "persistConversationId cid s =
     (if \<not> hasWindow s then s
      else (case cid of
              None \<Rightarrow> s\<lparr>storage := None\<rparr>
            | Some v \<Rightarrow>
                if \<not> js_truthy v then s\<lparr>storage := None\<rparr>
                else s\<lparr>storage := Some (js_to_string v)\<rparr>))"

definition setConversationId :: "json option \<Rightarrow> session \<Rightarrow> session" where
  "setConversationId cid s = persistConversationId cid (s\<lparr>conversationId := cid\<rparr>)"

text \<open>
  What a \<open>fetch\<close> gave: the promise rejected, or a response with its status and the part
  of the body the caller reads. \<open>response.ok\<close> is a status in the range 200 to 299.
\<close>

datatype 'b response = FetchRejected thrown | Response nat 'b

definition response_ok :: "nat \<Rightarrow> bool" where
  "response_ok st = (200 \<le> st \<and> st \<le> 299)"

text \<open>
  \<open>createConversation\<close>: the body is what \<open>response.json()\<close> gave, a thrown value or the
  payload. The identity is stored only when every check has passed, so a throw leaves the
  session as it was.
\<close>

definition createConversation ::
  "(thrown + json) response \<Rightarrow> session \<Rightarrow> thrown + (json \<times> session)" where
  "createConversation resp s =
     (case resp of
        FetchRejected e \<Rightarrow> Inl e
      | Response st body \<Rightarrow>
          if \<not> response_ok st then Inl (ErrorObj (CREATE_FAILED @ string_of_nat st))
          else (case body of
                  Inl e \<Rightarrow> Inl e
                | Inr payload \<Rightarrow>
                    (case js_prop payload ''conversation_id'' of
                       Inl e \<Rightarrow> Inl e
                     | Inr cid \<Rightarrow>
                         if \<not> truthy_opt cid then Inl (ErrorObj CREATE_MISSING_ID)
                         else (case cid of
                                 None \<Rightarrow> Inl (ErrorObj CREATE_MISSING_ID)
                               | Some v \<Rightarrow> Inr (v, setConversationId (Some v) s)))))"

definition ensureConversation ::
  "(thrown + json) response \<Rightarrow> session \<Rightarrow> thrown + (json \<times> session)" where
  "ensureConversation resp s =
     (case conversationId s of
        None \<Rightarrow> createConversation resp s
      | Some v \<Rightarrow> if js_truthy v then Inr (v, s) else createConversation resp s)"

section \<open>The event loop of submit\<close>

text \<open>
  The text a \<open>delta\<close> event appends, \<open>data.content || ""\<close> under string concatenation:
  empty for an absent or falsy \<open>content\<close>, else the value converted to a string.
\<close>

fun fragment_text :: "json option \<Rightarrow> string" where
  "fragment_text None = []"
| "fragment_text (Some v) = (if js_truthy v then js_to_string v else [])"

definition undefined_read_error :: "string \<Rightarrow> thrown" where
  "undefined_read_error p =
     ErrorObj (''Cannot read properties of undefined (reading '' @ [CHR 0x27] @ p @ [CHR 0x27] @ '')'')"

text \<open>
  One decoded event, from \<open>JSON.parse(currentData)\<close> to the end of the branch on
  \<open>currentEvent\<close>. The first component of the state is the local \<open>isClarification\<close> of the
  turn. \<open>parse\<close> is \<open>JSON.parse\<close>: \<open>Inl m\<close> when it throws a \<open>SyntaxError\<close> with message
  \<open>m\<close>. Every throw happens before the first write of the branch, so a thrown event leaves
  the state as it was. Reading \<open>messages.value[assistantIndex]\<close> out of range gives
  \<open>undefined\<close>, and reading its \<open>content\<close> throws.
\<close>

definition dispatch ::
  "(string \<Rightarrow> string + json) \<Rightarrow> nat \<Rightarrow> string \<Rightarrow> string \<Rightarrow> bool \<times> session
     \<Rightarrow> thrown + (bool \<times> session)" where
  "dispatch parse assistantIndex currentEvent currentData t =
     (case t of (isClar, s) \<Rightarrow>
      (case parse currentData of
         Inl m \<Rightarrow> Inl (ErrorObj m)
       | Inr data \<Rightarrow>
           if currentEvent = ''meta'' then
             (case js_prop data ''conversation_id'' of
                Inl e \<Rightarrow> Inl e
              | Inr cid \<Rightarrow>
                  (case js_prop data ''needs_clarification'' of
                     Inl e \<Rightarrow> Inl e
                   | Inr nc \<Rightarrow>
                       Inr (truthy_opt nc,
                            if truthy_opt cid then setConversationId cid s else s)))
           else if currentEvent = ''delta'' then
             (if \<not> assistantIndex < length (messages s) then Inl (undefined_read_error ''content'')
              else
                (case js_prop data ''content'' of
                   Inl e \<Rightarrow> Inl e
                 | Inr c \<Rightarrow>
                     let currentMessage = messages s ! assistantIndex
                     in Inr (isClar,
                             s\<lparr>messages := (messages s)[assistantIndex :=
                                  currentMessage\<lparr>content := content currentMessage @ fragment_text c,
                                                 isClarification := Some isClar\<rparr>]\<rparr>)))
           else if currentEvent = ''citations'' then
             (if \<not> assistantIndex < length (messages s) then Inl (undefined_read_error ''content'')
              else
                let currentMessage = messages s ! assistantIndex;
                    noInfo = includes_str (content currentMessage) NO_INFO_MARKER;
                    cits = (if noInfo \<or> isClar \<or> \<not> isArray data then []
                            else array_elements data)
                in Inr (isClar,
                        s\<lparr>currentCitations := cits,
                          messages := (messages s)[assistantIndex :=
                               currentMessage\<lparr>citations := Some cits,
                                              isClarification := Some isClar\<rparr>]\<rparr>))
           else Inr (isClar, s)))"

text \<open>
  The \<open>for\<close> loop over the complete lines of one read. Its variables \<open>currentEvent\<close> and
  \<open>currentData\<close> are the pair; \<open>continue\<close> keeps them, the end of the \<open>data\<close> branch clears
  them. \<open>Inl (e, s)\<close> is a throw of \<open>e\<close> with the session as it is at that moment.
\<close>

fun for_lines ::
  "(string \<Rightarrow> string + json) \<Rightarrow> nat \<Rightarrow> string list \<Rightarrow> string \<times> string \<Rightarrow> bool \<times> session
     \<Rightarrow> (thrown \<times> session) + (bool \<times> session)" where
  "for_lines parse assistantIndex [] cur t = Inr t"
| "for_lines parse assistantIndex (line # rest) cur t =
     (if startsWith line ''event: '' then
        for_lines parse assistantIndex rest (drop 7 line, snd cur) t
      else if startsWith line ''data: '' then
        (let currentData = drop 6 line in
         if fst cur = [] \<or> currentData = [] then
           for_lines parse assistantIndex rest (fst cur, currentData) t
         else
           (case dispatch parse assistantIndex (fst cur) currentData t of
              Inl e \<Rightarrow> Inl (e, snd t)
            | Inr t' \<Rightarrow> for_lines parse assistantIndex rest ([], []) t'))
      else for_lines parse assistantIndex rest cur t)"

text \<open>
  The \<open>while (true)\<close> loop over \<open>reader.read()\<close>. The reads of the body are a list: a chunk
  of text, or a rejected read; the end of the list is \<open>done\<close>. \<open>currentEvent\<close> and
  \<open>currentData\<close> are declared inside the loop body, so every read starts with both empty;
  only \<open>buffer\<close> lives across reads.
\<close>

datatype read_result = Chunk string | ReadRejected thrown

fun read_loop ::
  "(string \<Rightarrow> string + json) \<Rightarrow> nat \<Rightarrow> string \<Rightarrow> read_result list \<Rightarrow> bool \<times> session
     \<Rightarrow> (thrown \<times> session) + (bool \<times> session)" where
  "read_loop parse assistantIndex buffer [] t = Inr t"
| "read_loop parse assistantIndex buffer (ReadRejected e # later) t = Inl (e, snd t)"
| "read_loop parse assistantIndex buffer (Chunk v # later) t =
     (let lines = split_lines (buffer @ v) in
      case for_lines parse assistantIndex (butlast lines) ([], []) t of
        Inl x \<Rightarrow> Inl x
      | Inr t' \<Rightarrow> read_loop parse assistantIndex (last lines) later t')"

section \<open>The decoded event sequence\<close>

text \<open>
  The events the two loops hand to the dispatch, as pairs of \<open>currentEvent\<close> and
  \<open>currentData\<close>: the same loops with the dispatch replaced by emitting the pair.
\<close>

fun decode_lines :: "string list \<Rightarrow> string \<times> string \<Rightarrow> (string \<times> string) list" where
  "decode_lines [] cur = []"
| "decode_lines (line # rest) cur =
     (if startsWith line ''event: '' then decode_lines rest (drop 7 line, snd cur)
      else if startsWith line ''data: '' then
        (let currentData = drop 6 line in
         if fst cur = [] \<or> currentData = [] then decode_lines rest (fst cur, currentData)
         else (fst cur, currentData) # decode_lines rest ([], []))
      else decode_lines rest cur)"

fun decode_chunks :: "string \<Rightarrow> string list \<Rightarrow> (string \<times> string) list" where
  "decode_chunks buffer [] = []"
| "decode_chunks buffer (v # later) =
     (let lines = split_lines (buffer @ v) in
      decode_lines (butlast lines) ([], []) @ decode_chunks (last lines) later)"

text \<open>Dispatching a list of events in order, stopping at the first throw.\<close>

fun run_events ::
  "(string \<Rightarrow> string + json) \<Rightarrow> nat \<Rightarrow> (string \<times> string) list \<Rightarrow> bool \<times> session
     \<Rightarrow> (thrown \<times> session) + (bool \<times> session)" where
  "run_events parse assistantIndex [] t = Inr t"
| "run_events parse assistantIndex (ev # evs) t =
     (case dispatch parse assistantIndex (fst ev) (snd ev) t of
        Inl e \<Rightarrow> Inl (e, snd t)
      | Inr t' \<Rightarrow> run_events parse assistantIndex evs t')"

section \<open>submit\<close>

text \<open>
  The \<open>try\<close> block of \<open>submit\<close>. \<open>createResp\<close> is the answer to the request of
  \<open>createConversation\<close>, used only when no identity is held; \<open>askResp\<close> is the answer to
  \<open>POST /api/ask\<close>, its body the reads of \<open>response.body.getReader()\<close>, or \<open>None\<close> when
  the response has no body.
\<close>

definition submit_try ::
  "(string \<Rightarrow> string + json) \<Rightarrow> nat \<Rightarrow> (thrown + json) response
     \<Rightarrow> (read_result list option) response \<Rightarrow> session \<Rightarrow> (thrown \<times> session) + session" where
  "submit_try parse assistantIndex createResp askResp s =
     (case ensureConversation createResp s of
        Inl e \<Rightarrow> Inl (e, s)
      | Inr (activeConversationId, s1) \<Rightarrow>
          (case askResp of
             FetchRejected e \<Rightarrow> Inl (e, s1)
           | Response st body \<Rightarrow>
               if \<not> response_ok st then Inl (ErrorObj (''API error: '' @ string_of_nat st), s1)
               else (case body of
                       None \<Rightarrow> Inl (ErrorObj ''No response body'', s1)
                     | Some reads \<Rightarrow>
                         (case read_loop parse assistantIndex [] reads (False, s1) of
                            Inl x \<Rightarrow> Inl x
                          | Inr t \<Rightarrow> Inr (snd t)))))"

text \<open>
  \<open>submit\<close>, with the two results of \<open>generateId()\<close> as \<open>id1\<close> and \<open>id2\<close>. The placeholder
  is the last message and no step of the turn changes the length of the timeline, so
  \<open>assistantIndex\<close> is in range where the \<open>catch\<close> block writes.
\<close>

definition submit ::
  "(string \<Rightarrow> string + json) \<Rightarrow> string \<Rightarrow> string \<Rightarrow> (thrown + json) response
     \<Rightarrow> (read_result list option) response \<Rightarrow> session \<Rightarrow> session" where
  "submit parse id1 id2 createResp askResp s =
     (if trim (input s) = [] \<or> isLoading s then s
      else
        let query = trim (input s);
            userMessage = \<lparr>message_id = id1, role = User, content = query,
                            citations = None, isClarification = None\<rparr>;
            s1 = s\<lparr>messages := messages s @ [userMessage], input := [], isLoading := True,
                   error := None, currentCitations := []\<rparr>;
            assistantMessage = \<lparr>message_id = id2, role = Assistant, content = [],
                                 citations = Some [], isClarification = Some False\<rparr>;
            s2 = s1\<lparr>messages := messages s1 @ [assistantMessage]\<rparr>;
            assistantIndex = length (messages s2) - 1;
            s3 = (case submit_try parse assistantIndex createResp askResp s2 of
                    Inl (e, s') \<Rightarrow>
                      s'\<lparr>error := Some (message_or ''Unknown error'' e),
                         messages := (messages s')[assistantIndex :=
                            (messages s' ! assistantIndex)\<lparr>content := FAILURE_TEXT\<rparr>]\<rparr>
                  | Inr s' \<Rightarrow> s')
        in s3\<lparr>isLoading := False\<rparr>)"

section \<open>Restoring a conversation\<close>

text \<open>
  A payload of the history request that has the shape of the interface
  \<open>ConversationListResponse\<close> (\<open>limit\<close>, \<open>offset\<close> and \<open>total\<close> are not read).
\<close>

record history_item =
  item_id :: string
  item_role :: role
  item_content :: string
  item_citations :: "json list option"
  item_is_clarification :: "bool option"

record history_page =
  page_conversation_id :: string
  page_messages :: "history_item list"

text \<open>
  What \<open>response.json()\<close> resolved to. The code casts it to the interface without a
  check, so what the cast does not guarantee is kept: the payload may be \<open>null\<close>
  (\<open>NullPayload\<close>), its \<open>conversation_id\<close> may be absent (\<open>None\<close>), its \<open>messages\<close> may be
  absent or no array (\<open>None\<close>), and an element of the array may be \<open>null\<close> (\<open>NullItem\<close>).
  An element that is an object has the fields of the interface.
\<close>

datatype wire_item = NullItem | Item history_item

datatype history_payload = NullPayload | Payload "json option" "wire_item list option"

text \<open>The payload that has the shape of the interface.\<close>

definition typed_payload :: "history_page \<Rightarrow> history_payload" where
  "typed_payload page =
     Payload (Some (JStr (page_conversation_id page))) (Some (map Item (page_messages page)))"

definition to_message :: "history_item \<Rightarrow> message" where
  "to_message item =
     \<lparr>message_id = item_id item, role = item_role item, content = item_content item,
      citations = Some (case item_citations item of None \<Rightarrow> [] | Some cs \<Rightarrow> cs),
      isClarification = Some (case item_is_clarification item of None \<Rightarrow> False | Some b \<Rightarrow> b)\<rparr>"

text \<open>\<open>citations[0] || null\<close>.\<close>

fun first_or_null :: "json list \<Rightarrow> json option" where
  "first_or_null [] = None"
| "first_or_null (c # cs) = (if js_truthy c then Some c else None)"

definition has_citations :: "message \<Rightarrow> bool" where
  "has_citations item = (case citations item of None \<Rightarrow> False | Some cs \<Rightarrow> length cs \<noteq> 0)"

text \<open>
  \<open>payload.messages.map(...)\<close> on the elements of the array: reading \<open>id\<close> of a \<open>null\<close>
  element throws, and then no message list is produced.
\<close>

fun map_items :: "wire_item list \<Rightarrow> thrown + message list" where
  "map_items [] = Inr []"
| "map_items (NullItem # rest) = Inl (null_read_error ''id'')"
| "map_items (Item item # rest) =
     (case map_items rest of Inl e \<Rightarrow> Inl e | Inr ms \<Rightarrow> Inr (to_message item # ms))"

text \<open>
  The \<open>try\<close> block of \<open>restoreConversationMessages\<close>, after the stored identity was
  found. The identity of the payload is written before its messages are mapped, so a
  throw in the mapping leaves the new identity in place.
\<close>

definition restore_try ::
  "(thrown + history_payload) response \<Rightarrow> session \<Rightarrow> (thrown \<times> session) + session" where
  "restore_try resp s =
     (case resp of
        FetchRejected e \<Rightarrow> Inl (e, s)
      | Response st body \<Rightarrow>
          if st = 404 then Inr (setConversationId None s)
          else if \<not> response_ok st then Inl (ErrorObj (LOAD_FAILED @ string_of_nat st), s)
          else (case body of
                  Inl e \<Rightarrow> Inl (e, s)
                | Inr NullPayload \<Rightarrow> Inl (null_read_error ''conversation_id'', s)
                | Inr (Payload cid msgs) \<Rightarrow>
                    let s1 = setConversationId cid s in
                    (case msgs of
                       None \<Rightarrow> Inl (undefined_read_error ''map'', s1)
                     | Some items \<Rightarrow>
                         (case map_items items of
                            Inl e \<Rightarrow> Inl (e, s1)
                          | Inr ms \<Rightarrow>
                              let s2 = s1\<lparr>messages := ms\<rparr>;
                                  lastAssistant =
                                    find (\<lambda>item. role item = Assistant \<and> has_citations item)
                                      (rev (messages s2))
                              in Inr (case lastAssistant of
                                        None \<Rightarrow> s2
                                      | Some m \<Rightarrow>
                                          (case citations m of
                                             None \<Rightarrow> s2
                                           | Some cs \<Rightarrow>
                                               s2\<lparr>currentCitations := cs,
                                                  selectedCitation := first_or_null cs\<rparr>))))))"

definition restoreConversationMessages ::
  "(thrown + history_payload) response \<Rightarrow> session \<Rightarrow> session" where
  "restoreConversationMessages resp s =
     (if \<not> hasWindow s then s
      else (case storage s of
              None \<Rightarrow> s
            | Some savedConversationId \<Rightarrow>
                if savedConversationId = [] then s
                else (case restore_try resp s of
                        Inl (e, s') \<Rightarrow> s'\<lparr>error := Some (message_or RESTORE_FAILED e)\<rparr>
                      | Inr s' \<Rightarrow> s')))"

section \<open>Clearing, new conversation, selection\<close>

definition clear :: "session \<Rightarrow> session" where
  "clear s = s\<lparr>messages := [], currentCitations := [], selectedCitation := None, error := None\<rparr>"

definition startNewConversation :: "(thrown + json) response \<Rightarrow> session \<Rightarrow> session" where
  "startNewConversation createResp s =
     (let s1 = setConversationId None (clear s) in
      case createConversation createResp s1 of
        Inl e \<Rightarrow> s1\<lparr>error := Some (message_or NEW_CONVERSATION_FAILED e)\<rparr>
      | Inr r \<Rightarrow> snd r)"

text \<open>\<open>selectedCitation.value = citation\<close>; the value \<open>null\<close> is the empty selection.\<close>

definition selectCitation :: "json \<Rightarrow> session \<Rightarrow> session" where
  "selectCitation citation s =
     s\<lparr>selectedCitation := (if citation = JNull then None else Some citation)\<rparr>"

text \<open>
  \<open>currentCitations.value.find((c) => c.id === citationId)\<close>: reading \<open>id\<close> of a \<open>null\<close>
  element throws.
\<close>

fun find_by_id :: "int \<Rightarrow> json list \<Rightarrow> thrown + json option" where
  "find_by_id citationId [] = Inr None"
| "find_by_id citationId (c # cs) =
     (case js_prop c ''id'' of
        Inl e \<Rightarrow> Inl e
      | Inr v \<Rightarrow> if v = Some (JNum citationId) then Inr (Some c) else find_by_id citationId cs)"

text \<open>The click on a citation marker, in the chat page.\<close>

definition handleCitationClick :: "int \<Rightarrow> session \<Rightarrow> thrown + session" where
  "handleCitationClick citationId s =
     (case find_by_id citationId (currentCitations s) of
        Inl e \<Rightarrow> Inl e
      | Inr None \<Rightarrow> Inr s
      | Inr (Some citation) \<Rightarrow>
          if js_truthy citation then Inr (selectCitation citation s) else Inr s)"

definition handleMessageClick :: "message \<Rightarrow> session \<Rightarrow> session" where
  "handleMessageClick m s =
     (case citations m of
        None \<Rightarrow> s\<lparr>currentCitations := []\<rparr>
      | Some cs \<Rightarrow>
          if length cs > 0 then selectCitation (hd cs) (s\<lparr>currentCitations := cs\<rparr>)
          else s\<lparr>currentCitations := []\<rparr>)"

text \<open>The state \<open>useChat\<close> starts from, in an environment \<open>w\<close>, \<open>st\<close>.\<close>

definition initial_session :: "bool \<Rightarrow> string option \<Rightarrow> session" where
  "initial_session w st =
     \<lparr>messages = [], input = [], isLoading = False, error = None, currentCitations = [],
      selectedCitation = None, conversationId = None, hasWindow = w, storage = st\<rparr>"

section \<open>Notions used to state the properties\<close>

text \<open>The chunks read before the first rejected read, and that rejection.\<close>

fun chunks_before :: "read_result list \<Rightarrow> string list" where
  "chunks_before [] = []"
| "chunks_before (Chunk v # rs) = v # chunks_before rs"
| "chunks_before (ReadRejected e # rs) = []"

fun first_rejection :: "read_result list \<Rightarrow> thrown option" where
  "first_rejection [] = None"
| "first_rejection (Chunk v # rs) = first_rejection rs"
| "first_rejection (ReadRejected e # rs) = Some e"

text \<open>A read is rejected before the loop has decoded any event.\<close>

fun rejected_before_event :: "string \<Rightarrow> read_result list \<Rightarrow> bool" where
  "rejected_before_event buffer [] = False"
| "rejected_before_event buffer (ReadRejected e # rs) = True"
| "rejected_before_event buffer (Chunk v # rs) =
     (decode_lines (butlast (split_lines (buffer @ v))) ([], []) = [] \<and>
      rejected_before_event (last (split_lines (buffer @ v))) rs)"

text \<open>
  The request of a turn fails outright: no identity could be obtained, the request was
  rejected, the status is not a success, the body is absent, or a read is rejected before
  any event.
\<close>

definition request_fails ::
  "(thrown + json) response \<Rightarrow> (read_result list option) response \<Rightarrow> session \<Rightarrow> bool" where
  "request_fails createResp askResp s =
     (case ensureConversation createResp s of
        Inl e \<Rightarrow> True
      | Inr r \<Rightarrow>
          (case askResp of
             FetchRejected e \<Rightarrow> True
           | Response st body \<Rightarrow>
               \<not> response_ok st \<or>
               (case body of None \<Rightarrow> True | Some reads \<Rightarrow> rejected_before_event [] reads)))"

text \<open>The session when the \<open>try\<close> block of \<open>submit\<close> is entered.\<close>

definition open_turn :: "string \<Rightarrow> string \<Rightarrow> session \<Rightarrow> session" where
  "open_turn id1 id2 s =
     s\<lparr>messages := messages s @
          [\<lparr>message_id = id1, role = User, content = trim (input s),
            citations = None, isClarification = None\<rparr>,
           \<lparr>message_id = id2, role = Assistant, content = [],
            citations = Some [], isClarification = Some False\<rparr>],
       input := [], isLoading := True, error := None, currentCitations := []\<rparr>"

text \<open>What the event loop of a turn leaves alone: everything but the open message, the
  current citations, the identity and its stored copy.\<close>

definition same_outside :: "nat \<Rightarrow> session \<Rightarrow> session \<Rightarrow> bool" where
  "same_outside idx s s' =
     (length (messages s') = length (messages s) \<and>
      (\<forall>i. i \<noteq> idx \<longrightarrow> messages s' ! i = messages s ! i) \<and>
      selectedCitation s' = selectedCitation s \<and> input s' = input s \<and>
      isLoading s' = isLoading s \<and> error s' = error s \<and> hasWindow s' = hasWindow s)"

text \<open>The text the \<open>delta\<close> events of a decoded sequence carry, in order.\<close>

fun delta_fragments :: "(string \<Rightarrow> string + json) \<Rightarrow> (string \<times> string) list \<Rightarrow> string" where
  "delta_fragments parse [] = []"
| "delta_fragments parse (ev # evs) =
     (if fst ev = ''delta'' then
        (case parse (snd ev) of
           Inl m \<Rightarrow> []
         | Inr d \<Rightarrow> (case js_prop d ''content'' of Inl e \<Rightarrow> [] | Inr f \<Rightarrow> fragment_text f))
      else []) @ delta_fragments parse evs"

text \<open>The selection is empty or one of the current citations.\<close>

definition selection_ok :: "session \<Rightarrow> bool" where
  "selection_ok s =
     (case selectedCitation s of None \<Rightarrow> True | Some c \<Rightarrow> c \<in> set (currentCitations s))"

text \<open>A value of the interface \<open>Citation\<close> is an object.\<close>

fun is_object :: "json \<Rightarrow> bool" where
  "is_object (JObj kvs) = True"
| "is_object v = False"

text \<open>The history request fails before a payload is read: rejected, a status that is
  neither 404 nor a success, a body that \<open>response.json()\<close> rejects, or the body \<open>null\<close>.\<close>

definition history_fetch_fails :: "(thrown + history_payload) response \<Rightarrow> bool" where
  "history_fetch_fails resp =
     (case resp of
        FetchRejected e \<Rightarrow> True
      | Response st body \<Rightarrow>
          st \<noteq> 404 \<and>
          (\<not> response_ok st \<or>
           (case body of Inl e \<Rightarrow> True | Inr NullPayload \<Rightarrow> True | Inr (Payload cid msgs) \<Rightarrow> False)))"

text \<open>The \<open>try\<close> block of a restore throws, at whatever point.\<close>

definition restore_throws :: "(thrown + history_payload) response \<Rightarrow> session \<Rightarrow> bool" where
  "restore_throws resp s = (case restore_try resp s of Inl x \<Rightarrow> True | Inr s' \<Rightarrow> False)"

text \<open>
  The text of one event as the server frames it (an \<open>event:\<close> line, a \<open>data:\<close> line, a
  blank line), the events that can be framed so, and the lines of a run of frames.
\<close>

definition frame :: "string \<times> string \<Rightarrow> string" where
  "frame e = ''event: '' @ fst e @ [CHR 0x0A] @ ''data: '' @ snd e @ [CHR 0x0A, CHR 0x0A]"

definition plain_event :: "string \<times> string \<Rightarrow> bool" where
  "plain_event e =
     (fst e \<noteq> [] \<and> snd e \<noteq> [] \<and> CHR 0x0A \<notin> set (fst e) \<and> CHR 0x0A \<notin> set (snd e))"

fun frame_lines :: "(string \<times> string) list \<Rightarrow> string list" where
  "frame_lines [] = []"
| "frame_lines (e # es) = (''event: '' @ fst e) # (''data: '' @ snd e) # [] # frame_lines es"

subsection \<open>Sample inputs\<close>

text \<open>\<open>JSON.parse\<close> on the payloads of the examples below; \<open>{bad\<close> is malformed.\<close>

definition sample_parse :: "string \<Rightarrow> string + json" where
  "sample_parse text =
     (if text = ''{\"content\":\"a\"}'' then Inr (JObj [(''content'', JStr ''a'')])
      else if text = ''{\"content\":\"b\"}'' then Inr (JObj [(''content'', JStr ''b'')])
      else if text = ''{\"needs_clarification\":true}''
        then Inr (JObj [(''needs_clarification'', JBool True)])
      else if text = ''{}'' then Inr (JObj [])
      else if text = ''[{\"id\":1}]'' then Inr (JArr [JObj [(''id'', JNum 1)]])
      else Inl ''Unexpected token b in JSON at position 1'')"

text \<open>A session holding the identity \<open>c-1\<close>, the user having typed \<open>hi\<close>.\<close>

definition sample_session :: session where
  "sample_session =
     \<lparr>messages = [], input = ''hi'', isLoading = False, error = None, currentCitations = [],
      selectedCitation = None, conversationId = Some (JStr ''c-1''), hasWindow = True,
      storage = Some ''c-1''\<rparr>"

definition sample_citation :: json where
  "sample_citation = JObj [(''id'', JNum 1)]"

definition sample_answer :: message where
  "sample_answer =
     \<lparr>message_id = ''m2'', role = Assistant, content = ''Habits compound [1].'',
      citations = Some [sample_citation], isClarification = Some False\<rparr>"

definition sample_question :: message where
  "sample_question =
     \<lparr>message_id = ''m1'', role = User, content = ''hi'',
      citations = None, isClarification = None\<rparr>"

definition sample_page :: history_page where
  "sample_page =
     \<lparr>page_conversation_id = ''c-1'',
      page_messages =
        [\<lparr>item_id = ''m1'', item_role = User, item_content = ''hi'',
          item_citations = None, item_is_clarification = None\<rparr>,
         \<lparr>item_id = ''m2'', item_role = Assistant, item_content = ''Habits compound [1].'',
          item_citations = Some [sample_citation], item_is_clarification = Some False\<rparr>,
         \<lparr>item_id = ''m3'', item_role = User, item_content = ''more'',
          item_citations = None, item_is_clarification = None\<rparr>,
         \<lparr>item_id = ''m4'', item_role = Assistant, item_content = ''Which book?'',
          item_citations = None, item_is_clarification = Some True\<rparr>]\<rparr>"

section \<open>Basic facts\<close>

declare string_of_nat.simps [simp del]

lemma split_lines_not_empty: "split_lines s \<noteq> []"
  by (induction s) (auto split: list.splits)

lemma setConversationId_fields [simp]:
  "messages (setConversationId cid s) = messages s"
  "selectedCitation (setConversationId cid s) = selectedCitation s"
  "currentCitations (setConversationId cid s) = currentCitations s"
  "error (setConversationId cid s) = error s"
  "isLoading (setConversationId cid s) = isLoading s"
  "input (setConversationId cid s) = input s"
  "hasWindow (setConversationId cid s) = hasWindow s"
  "conversationId (setConversationId cid s) = cid"
  by (simp_all add: setConversationId_def persistConversationId_def split: option.splits)

subsection \<open>One event\<close>

lemma dispatch_parse_error:
  "parse p = Inl m \<Longrightarrow> dispatch parse idx ev p t = Inl (ErrorObj m)"
  by (cases t) (simp add: dispatch_def)

lemma dispatch_meta:
  "parse p = Inr d \<Longrightarrow> js_prop d ''needs_clarification'' = Inr nc \<Longrightarrow>
   js_prop d ''conversation_id'' = Inr cid \<Longrightarrow>
   dispatch parse idx ''meta'' p (c, s) =
     Inr (truthy_opt nc, if truthy_opt cid then setConversationId cid s else s)"
  by (simp add: dispatch_def)

lemma dispatch_delta:
  "parse p = Inr d \<Longrightarrow> js_prop d ''content'' = Inr f \<Longrightarrow> idx < length (messages s) \<Longrightarrow>
   dispatch parse idx ''delta'' p (c, s) =
     Inr (c, s\<lparr>messages := (messages s)[idx :=
            (messages s ! idx)\<lparr>content := content (messages s ! idx) @ fragment_text f,
                               isClarification := Some c\<rparr>]\<rparr>)"
  by (simp add: dispatch_def Let_def)

lemma dispatch_citations:
  "parse p = Inr d \<Longrightarrow> idx < length (messages s) \<Longrightarrow>
   dispatch parse idx ''citations'' p (c, s) =
     Inr (c, s\<lparr>currentCitations :=
                 (if includes_str (content (messages s ! idx)) NO_INFO_MARKER \<or> c \<or> \<not> isArray d
                  then [] else array_elements d),
               messages := (messages s)[idx :=
                 (messages s ! idx)\<lparr>citations :=
                    Some (if includes_str (content (messages s ! idx)) NO_INFO_MARKER \<or> c \<or> \<not> isArray d
                          then [] else array_elements d),
                    isClarification := Some c\<rparr>]\<rparr>)"
  by (simp add: dispatch_def Let_def)

lemma dispatch_other:
  "parse p = Inr d \<Longrightarrow> ev \<noteq> ''meta'' \<Longrightarrow> ev \<noteq> ''delta'' \<Longrightarrow> ev \<noteq> ''citations'' \<Longrightarrow>
   dispatch parse idx ev p t = Inr t"
  by (cases t) (simp add: dispatch_def)

lemma js_prop_null_iff: "(\<exists>e. js_prop d p = Inl e) \<longleftrightarrow> d = JNull"
  by (cases d) auto

subsection \<open>The loops and the decoded sequence\<close>

lemma for_lines_run:
  "for_lines parse idx ls cur t = run_events parse idx (decode_lines ls cur) t"
  by (induction ls arbitrary: cur t) (auto simp: Let_def split: sum.splits)

lemma run_events_append:
  "run_events parse idx (xs @ ys) t =
     (case run_events parse idx xs t of Inl x \<Rightarrow> Inl x | Inr t' \<Rightarrow> run_events parse idx ys t')"
  by (induction xs arbitrary: t) (auto split: sum.splits)

lemma read_loop_run:
  "read_loop parse idx buf reads t =
     (case run_events parse idx (decode_chunks buf (chunks_before reads)) t of
        Inl x \<Rightarrow> Inl x
      | Inr t' \<Rightarrow> (case first_rejection reads of None \<Rightarrow> Inr t' | Some e \<Rightarrow> Inl (e, snd t')))"
proof (induction reads arbitrary: buf t)
  case Nil
  then show ?case by simp
next
  case (Cons r reads)
  show ?case
  proof (cases r)
    case (Chunk v)
    then show ?thesis
      by (simp add: Let_def for_lines_run run_events_append Cons.IH split: sum.splits)
  next
    case (ReadRejected e)
    then show ?thesis by simp
  qed
qed

lemma chunks_before_map [simp]: "chunks_before (map Chunk vs) = vs"
  by (induction vs) auto

lemma first_rejection_map [simp]: "first_rejection (map Chunk vs) = None"
  by (induction vs) auto

lemma read_loop_chunks:
  "read_loop parse idx buf (map Chunk vs) t = run_events parse idx (decode_chunks buf vs) t"
  by (simp add: read_loop_run split: sum.splits)

subsection \<open>What a turn changes\<close>

lemma same_outside_refl [simp]: "same_outside idx s s"
  by (simp add: same_outside_def)

lemma same_outside_trans:
  "same_outside idx s s' \<Longrightarrow> same_outside idx s' s'' \<Longrightarrow> same_outside idx s s''"
  by (simp add: same_outside_def)

lemma event_kinds:
  obtains "ev = ''meta''" | "ev = ''delta''" | "ev = ''citations''"
  | "ev \<noteq> ''meta''" "ev \<noteq> ''delta''" "ev \<noteq> ''citations''"
  by blast

lemma dispatch_same_outside:
  assumes "dispatch parse idx ev p (c, s) = Inr (c', s')"
  shows "same_outside idx s s'"
proof (cases "parse p")
  case (Inl m)
  with assms show ?thesis by (simp add: dispatch_def)
next
  case (Inr d)
  show ?thesis
  proof (cases ev rule: event_kinds)
    case 1
    with Inr assms show ?thesis
      by (auto simp: dispatch_def same_outside_def split: sum.splits if_splits)
  next
    case 2
    with Inr assms show ?thesis
      by (auto simp: dispatch_def Let_def same_outside_def split: sum.splits if_splits)
  next
    case 3
    with Inr assms show ?thesis
      by (auto simp: dispatch_def Let_def same_outside_def split: if_splits)
  next
    case 4
    with Inr assms show ?thesis
      by (simp add: dispatch_def same_outside_def)
  qed
qed

lemma dispatch_content:
  assumes "dispatch parse idx ev p (c, s) = Inr (c', s')" and "idx < length (messages s)"
  shows "content (messages s' ! idx) = content (messages s ! idx) @ delta_fragments parse [(ev, p)]"
proof (cases "parse p")
  case (Inl m)
  with assms show ?thesis by (simp add: dispatch_def)
next
  case (Inr d)
  show ?thesis
  proof (cases ev rule: event_kinds)
    case 1
    with Inr assms show ?thesis
      by (auto simp: dispatch_def split: sum.splits)
  next
    case 2
    with Inr assms show ?thesis
      by (auto simp: dispatch_def Let_def split: sum.splits)
  next
    case 3
    with Inr assms show ?thesis
      by (auto simp: dispatch_def Let_def)
  next
    case 4
    with Inr assms show ?thesis
      by (simp add: dispatch_def)
  qed
qed

lemma run_events_same_outside:
  "run_events parse idx evs t = Inr t' \<Longrightarrow> same_outside idx (snd t) (snd t')"
proof (induction evs arbitrary: t)
  case Nil
  then show ?case by simp
next
  case (Cons ev evs)
  then show ?case
    by (cases t) (auto split: sum.splits dest!: dispatch_same_outside Cons.IH intro: same_outside_trans)
qed

lemma run_events_thrown_same_outside:
  "run_events parse idx evs t = Inl (e, s') \<Longrightarrow> same_outside idx (snd t) s'"
proof (induction evs arbitrary: t)
  case Nil
  then show ?case by simp
next
  case (Cons ev evs)
  then show ?case
    by (cases t) (auto split: sum.splits dest!: dispatch_same_outside Cons.IH intro: same_outside_trans)
qed

lemma delta_fragments_append:
  "delta_fragments parse (xs @ ys) = delta_fragments parse xs @ delta_fragments parse ys"
  by (induction xs) auto

lemma run_events_content:
  assumes "run_events parse idx evs (c, s) = Inr (c', s')" and "idx < length (messages s)"
  shows "content (messages s' ! idx) = content (messages s ! idx) @ delta_fragments parse evs"
  using assms
proof (induction evs arbitrary: c s)
  case Nil
  then show ?case by simp
next
  case (Cons ev evs)
  from Cons.prems(1) obtain c1 s1 where
    d: "dispatch parse idx (fst ev) (snd ev) (c, s) = Inr (c1, s1)" and
    r: "run_events parse idx evs (c1, s1) = Inr (c', s')"
    by (auto split: sum.splits)
  from d have len: "length (messages s1) = length (messages s)"
    by (auto dest: dispatch_same_outside simp: same_outside_def)
  have "content (messages s1 ! idx) = content (messages s ! idx) @ delta_fragments parse [ev]"
    using dispatch_content [OF _ Cons.prems(2), of parse "fst ev" "snd ev" c c1 s1] d by simp
  moreover have "content (messages s' ! idx) = content (messages s1 ! idx) @ delta_fragments parse evs"
    using Cons.IH [OF r] len Cons.prems(2) by simp
  ultimately show ?case
    using delta_fragments_append [of parse "[ev]" evs] by simp
qed

subsection \<open>submit in terms of its try block\<close>

lemma open_turn_fields [simp]:
  "length (messages (open_turn id1 id2 s)) = Suc (Suc (length (messages s)))"
  "conversationId (open_turn id1 id2 s) = conversationId s"
  "selectedCitation (open_turn id1 id2 s) = selectedCitation s"
  "currentCitations (open_turn id1 id2 s) = []"
  "hasWindow (open_turn id1 id2 s) = hasWindow s"
  "storage (open_turn id1 id2 s) = storage s"
  "isLoading (open_turn id1 id2 s) = True"
  "error (open_turn id1 id2 s) = None"
  "messages (open_turn id1 id2 s) ! Suc (length (messages s)) =
     \<lparr>message_id = id2, role = Assistant, content = [],
      citations = Some [], isClarification = Some False\<rparr>"
  by (simp_all add: open_turn_def nth_append)

lemma submit_eq:
  assumes "trim (input s) \<noteq> []" and "\<not> isLoading s"
  shows "submit parse id1 id2 createResp askResp s =
     (case submit_try parse (Suc (length (messages s))) createResp askResp (open_turn id1 id2 s) of
        Inl (e, s') \<Rightarrow>
          s'\<lparr>error := Some (message_or ''Unknown error'' e),
             messages := (messages s')[Suc (length (messages s)) :=
                (messages s' ! Suc (length (messages s)))\<lparr>content := FAILURE_TEXT\<rparr>],
             isLoading := False\<rparr>
      | Inr s' \<Rightarrow> s'\<lparr>isLoading := False\<rparr>)"
proof -
  have s2:
    "s\<lparr>messages := messages s @
         [\<lparr>message_id = id1, role = User, content = trim (input s),
           citations = None, isClarification = None\<rparr>],
       input := [], isLoading := True, error := None, currentCitations := []\<rparr>
      \<lparr>messages :=
         messages (s\<lparr>messages := messages s @
             [\<lparr>message_id = id1, role = User, content = trim (input s),
               citations = None, isClarification = None\<rparr>],
             input := [], isLoading := True, error := None, currentCitations := []\<rparr>) @
         [\<lparr>message_id = id2, role = Assistant, content = [],
           citations = Some [], isClarification = Some False\<rparr>]\<rparr>
     = open_turn id1 id2 s"
    by (simp add: open_turn_def)
  have "submit parse id1 id2 createResp askResp s =
     (case submit_try parse (Suc (length (messages s))) createResp askResp (open_turn id1 id2 s) of
        Inl (e, s') \<Rightarrow>
          s'\<lparr>error := Some (message_or ''Unknown error'' e),
             messages := (messages s')[Suc (length (messages s)) :=
                (messages s' ! Suc (length (messages s)))\<lparr>content := FAILURE_TEXT\<rparr>]\<rparr>
      | Inr s' \<Rightarrow> s')\<lparr>isLoading := False\<rparr>"
    using assms unfolding submit_def Let_def s2 by (simp cong: sum.case_cong)
  then show ?thesis
    by (cases "submit_try parse (Suc (length (messages s))) createResp askResp (open_turn id1 id2 s)")
       (auto split: prod.splits)
qed

lemma submit_try_stream:
  assumes "conversationId s = Some v" and "js_truthy v" and "response_ok st"
  shows "submit_try parse idx createResp (Response st (Some reads)) s =
     (case read_loop parse idx [] reads (False, s) of Inl x \<Rightarrow> Inl x | Inr t \<Rightarrow> Inr (snd t))"
  using assms by (simp add: submit_try_def ensureConversation_def)

lemma submit_stream:
  assumes "trim (input s) \<noteq> []" and "\<not> isLoading s"
    and "conversationId s = Some v" and "js_truthy v" and "response_ok st"
  shows "submit parse id1 id2 createResp (Response st (Some (map Chunk vs))) s =
     (case run_events parse (Suc (length (messages s))) (decode_chunks [] vs)
             (False, open_turn id1 id2 s) of
        Inl (e, s') \<Rightarrow>
          s'\<lparr>error := Some (message_or ''Unknown error'' e),
             messages := (messages s')[Suc (length (messages s)) :=
                (messages s' ! Suc (length (messages s)))\<lparr>content := FAILURE_TEXT\<rparr>],
             isLoading := False\<rparr>
      | Inr t \<Rightarrow> (snd t)\<lparr>isLoading := False\<rparr>)"
proof -
  have "submit_try parse (Suc (length (messages s))) createResp
          (Response st (Some (map Chunk vs))) (open_turn id1 id2 s) =
        (case run_events parse (Suc (length (messages s))) (decode_chunks [] vs)
                (False, open_turn id1 id2 s) of
           Inl x \<Rightarrow> Inl x | Inr t \<Rightarrow> Inr (snd t))"
    using assms(3-5) by (simp add: submit_try_stream read_loop_chunks)
  then show ?thesis
    using assms(1,2) by (simp add: submit_eq split: sum.splits)
qed

lemma sample_turn [simp]:
  "trim (input sample_session) \<noteq> []" "\<not> isLoading sample_session"
  "conversationId sample_session = Some (JStr ''c-1'')" "messages sample_session = []"
  by (simp_all add: sample_session_def trim_def is_space_def)

lemma sample_parse_values [simp]:
  "sample_parse ''{\"content\":\"a\"}'' = Inr (JObj [(''content'', JStr ''a'')])"
  "sample_parse ''{\"content\":\"b\"}'' = Inr (JObj [(''content'', JStr ''b'')])"
  "sample_parse ''{\"needs_clarification\":true}'' = Inr (JObj [(''needs_clarification'', JBool True)])"
  "sample_parse ''{}'' = Inr (JObj [])"
  "sample_parse ''[{\"id\":1}]'' = Inr (JArr [JObj [(''id'', JNum 1)]])"
  "sample_parse ''{bad'' = Inl ''Unexpected token b in JSON at position 1''"
  by (simp_all add: sample_parse_def)

lemma ensureConversation_same_outside:
  "ensureConversation createResp s = Inr (v, s1) \<Longrightarrow> same_outside idx s s1"
  by (auto simp: ensureConversation_def createConversation_def same_outside_def
           split: option.splits if_splits response.splits sum.splits)

lemma ensureConversation_keeps:
  "ensureConversation createResp s = Inr (v, s1) \<Longrightarrow>
     messages s1 = messages s \<and> currentCitations s1 = currentCitations s"
  by (auto simp: ensureConversation_def createConversation_def
           split: option.splits if_splits response.splits sum.splits)

lemma read_loop_same_outside:
  "read_loop parse idx buf reads t = Inr t' \<Longrightarrow> same_outside idx (snd t) (snd t')"
  by (auto simp: read_loop_run split: sum.splits option.splits dest: run_events_same_outside)

lemma read_loop_thrown_same_outside:
  "read_loop parse idx buf reads t = Inl (e, s') \<Longrightarrow> same_outside idx (snd t) s'"
  by (auto simp: read_loop_run split: sum.splits option.splits
           dest: run_events_same_outside run_events_thrown_same_outside)

lemma submit_try_thrown_same_outside:
  assumes "submit_try parse idx createResp askResp s = Inl (e, s')"
  shows "same_outside idx s s'"
proof (cases "ensureConversation createResp s")
  case (Inl a)
  with assms show ?thesis by (simp add: submit_try_def)
next
  case (Inr r)
  obtain v s1 where r: "r = (v, s1)" by (cases r)
  have a: "same_outside idx s s1"
    using Inr r by (simp add: ensureConversation_same_outside)
  have "s' = s1 \<or> same_outside idx s1 s'"
    using assms Inr r
    by (auto simp: submit_try_def split: response.splits if_splits option.splits sum.splits
             dest: read_loop_thrown_same_outside)
  with a show ?thesis
    by (auto intro: same_outside_trans)
qed

lemma submit_try_same_outside:
  assumes "submit_try parse idx createResp askResp s = Inr s'"
  shows "same_outside idx s s'"
proof (cases "ensureConversation createResp s")
  case (Inl a)
  with assms show ?thesis by (simp add: submit_try_def)
next
  case (Inr r)
  obtain v s1 where r: "r = (v, s1)" by (cases r)
  have a: "same_outside idx s s1"
    using Inr r by (simp add: ensureConversation_same_outside)
  have "same_outside idx s1 s'"
    using assms Inr r
    by (auto simp: submit_try_def split: response.splits if_splits option.splits sum.splits
             dest: read_loop_same_outside)
  with a show ?thesis
    by (auto intro: same_outside_trans)
qed

text \<open>The end of a turn whose \<open>try\<close> block threw.\<close>

lemma submit_thrown:
  assumes "trim (input s) \<noteq> []" and "\<not> isLoading s"
    and "submit_try parse (Suc (length (messages s))) createResp askResp (open_turn id1 id2 s)
           = Inl (e, s')"
  shows "submit parse id1 id2 createResp askResp s =
           s'\<lparr>error := Some (message_or ''Unknown error'' e),
              messages := (messages s')[Suc (length (messages s)) :=
                 (messages s' ! Suc (length (messages s)))\<lparr>content := FAILURE_TEXT\<rparr>],
              isLoading := False\<rparr>"
    and "last (messages (submit parse id1 id2 createResp askResp s)) =
           (messages s' ! Suc (length (messages s)))\<lparr>content := FAILURE_TEXT\<rparr>"
proof -
  show eq: "submit parse id1 id2 createResp askResp s =
           s'\<lparr>error := Some (message_or ''Unknown error'' e),
              messages := (messages s')[Suc (length (messages s)) :=
                 (messages s' ! Suc (length (messages s)))\<lparr>content := FAILURE_TEXT\<rparr>],
              isLoading := False\<rparr>"
    using assms by (simp add: submit_eq)
  have "same_outside (Suc (length (messages s))) (open_turn id1 id2 s) s'"
    using assms(3) by (rule submit_try_thrown_same_outside)
  then have len: "length (messages s') = Suc (Suc (length (messages s)))"
    by (simp add: same_outside_def)
  then have "messages s' \<noteq> []" by auto
  then show "last (messages (submit parse id1 id2 createResp askResp s)) =
           (messages s' ! Suc (length (messages s)))\<lparr>content := FAILURE_TEXT\<rparr>"
    using len by (simp add: eq last_list_update)
qed

lemma run_events_flag_kept:
  assumes "run_events parse idx evs (c, s) = Inr (c', s')" and "\<forall>e\<in>set evs. fst e \<noteq> ''meta''"
  shows "c' = c"
  using assms
proof (induction evs arbitrary: c s)
  case Nil
  then show ?case by simp
next
  case (Cons ev evs)
  from Cons.prems(1) obtain c1 s1 where
    d: "dispatch parse idx (fst ev) (snd ev) (c, s) = Inr (c1, s1)" and
    r: "run_events parse idx evs (c1, s1) = Inr (c', s')"
    by (auto split: sum.splits)
  from Cons.prems(2) have nm: "fst ev \<noteq> ''meta''" by simp
  have "c1 = c"
    using d nm by (auto simp: dispatch_def Let_def split: sum.splits if_splits)
  moreover have "c' = c1"
    using Cons.IH [OF r] Cons.prems(2) by simp
  ultimately show ?case by simp
qed

lemma dispatch_stamps_flag:
  assumes "dispatch parse idx ev p (c, s) = Inr (c', s')" and "ev = ''delta'' \<or> ev = ''citations''"
  shows "c' = c \<and> isClarification (messages s' ! idx) = Some c"
  using assms by (auto simp: dispatch_def Let_def split: sum.splits if_splits)

lemma dispatch_meta_flag:
  assumes "dispatch parse idx ''meta'' p (c, s) = Inr (c', s')"
    and "parse p = Inr d" and "js_prop d ''needs_clarification'' = Inr nc"
  shows "c' = truthy_opt nc"
  using assms by (auto simp: dispatch_def split: sum.splits)

lemma ensureConversation_thrown_cong:
  "conversationId s' = conversationId s \<Longrightarrow>
   ensureConversation createResp s = Inl e \<Longrightarrow> ensureConversation createResp s' = Inl e"
  by (auto simp: ensureConversation_def createConversation_def
           split: option.splits if_splits response.splits sum.splits)

lemma ensureConversation_returns_cong:
  "conversationId s' = conversationId s \<Longrightarrow>
   ensureConversation createResp s = Inr r \<Longrightarrow> \<exists>r'. ensureConversation createResp s' = Inr r'"
  by (auto simp: ensureConversation_def createConversation_def
           split: option.splits if_splits response.splits sum.splits)

lemma rejected_before_event_decodes_nothing:
  "rejected_before_event buf reads \<Longrightarrow>
     decode_chunks buf (chunks_before reads) = [] \<and> first_rejection reads \<noteq> None"
proof (induction reads arbitrary: buf)
  case Nil
  then show ?case by simp
next
  case (Cons r reads)
  then show ?case by (cases r) (auto simp: Let_def)
qed

lemma read_loop_rejected_before_event:
  assumes "rejected_before_event buf reads"
  shows "\<exists>e. read_loop parse idx buf reads t = Inl (e, snd t)"
  using rejected_before_event_decodes_nothing [OF assms]
  by (auto simp: read_loop_run)

text \<open>A request that fails outright throws with the timeline and the citations untouched.\<close>

lemma submit_try_request_fails:
  assumes "request_fails createResp askResp s" and "conversationId s0 = conversationId s"
  shows "\<exists>e s'. submit_try parse idx createResp askResp s0 = Inl (e, s') \<and>
           messages s' = messages s0 \<and> currentCitations s' = currentCitations s0"
proof (cases "ensureConversation createResp s")
  case (Inl e)
  then have "ensureConversation createResp s0 = Inl e"
    using assms(2) by (rule ensureConversation_thrown_cong [rotated])
  then show ?thesis by (simp add: submit_try_def)
next
  case (Inr r)
  then obtain r' where "ensureConversation createResp s0 = Inr r'"
    using assms(2) ensureConversation_returns_cong by blast
  then obtain v s1 where e0: "ensureConversation createResp s0 = Inr (v, s1)"
    by (cases r') auto
  have keep: "messages s1 = messages s0 \<and> currentCitations s1 = currentCitations s0"
    using e0 by (rule ensureConversation_keeps)
  show ?thesis
  proof (cases askResp)
    case (FetchRejected e)
    then show ?thesis using e0 keep by (simp add: submit_try_def)
  next
    case (Response st body)
    show ?thesis
    proof (cases "response_ok st")
      case False
      then show ?thesis using e0 keep Response by (simp add: submit_try_def)
    next
      case True
      show ?thesis
      proof (cases body)
        case None
        then show ?thesis using e0 keep Response True by (simp add: submit_try_def)
      next
        case (Some reads)
        have "rejected_before_event [] reads"
          using assms(1) Inr Response True Some by (simp add: request_fails_def)
        then obtain e where "read_loop parse idx [] reads (False, s1) = Inl (e, s1)"
          using read_loop_rejected_before_event [of "[]" reads parse idx "(False, s1)"] by auto
        then show ?thesis using e0 keep Response True Some by (simp add: submit_try_def)
      qed
    qed
  qed
qed

lemma submit_clears_loading:
  assumes "\<not> isLoading s"
  shows "\<not> isLoading (submit parse id1 id2 createResp askResp s)"
proof (cases "trim (input s) = []")
  case True
  with assms show ?thesis by (simp add: submit_def)
next
  case False
  then show ?thesis
    using assms by (simp add: submit_eq split: sum.splits prod.splits)
qed

lemma restore_fetches:
  assumes "hasWindow s" and "storage s = Some saved" and "saved \<noteq> []"
  shows "restoreConversationMessages resp s =
           (case restore_try resp s of
              Inl (e, s') \<Rightarrow> s'\<lparr>error := Some (message_or RESTORE_FAILED e)\<rparr>
            | Inr s' \<Rightarrow> s')"
  using assms by (simp add: restoreConversationMessages_def)

lemma find_skips_prefix:
  "\<forall>x\<in>set ys. \<not> P x \<Longrightarrow> find P (ys @ zs) = find P zs"
  by (induction ys) auto

lemma find_rev_latest:
  assumes "P m" and "\<forall>x\<in>set after. \<not> P x"
  shows "find P (rev (before @ m # after)) = Some m"
proof -
  have "find P (rev after @ m # rev before) = find P (m # rev before)"
    using assms(2) by (intro find_skips_prefix) simp
  then show ?thesis
    using assms(1) by simp
qed

lemma first_or_null_object:
  "cs \<noteq> [] \<Longrightarrow> is_object (hd cs) \<Longrightarrow> first_or_null cs = Some (hd cs)"
  by (cases cs; cases "hd cs") auto

lemma map_items_typed: "map_items (map Item items) = Inr (map to_message items)"
  by (induction items) auto

lemma restore_success:
  assumes "hasWindow s" and "storage s = Some saved" and "saved \<noteq> []"
    and "response_ok st"
  shows "restoreConversationMessages (Response st (Inr (typed_payload payload))) s =
     (case find (\<lambda>item. role item = Assistant \<and> has_citations item)
             (rev (map to_message (page_messages payload))) of
        None \<Rightarrow>
          (setConversationId (Some (JStr (page_conversation_id payload))) s)
            \<lparr>messages := map to_message (page_messages payload)\<rparr>
      | Some m \<Rightarrow>
          (case citations m of
             None \<Rightarrow>
               (setConversationId (Some (JStr (page_conversation_id payload))) s)
                 \<lparr>messages := map to_message (page_messages payload)\<rparr>
           | Some cs \<Rightarrow>
               (setConversationId (Some (JStr (page_conversation_id payload))) s)
                 \<lparr>messages := map to_message (page_messages payload),
                  currentCitations := cs, selectedCitation := first_or_null cs\<rparr>))"
proof -
  have "st \<noteq> 404"
    using assms(4) by (auto simp: response_ok_def)
  then show ?thesis
    using assms
    by (simp add: restore_fetches restore_try_def typed_payload_def map_items_typed Let_def)
qed

lemma submit_keeps_selection:
  "selectedCitation (submit parse id1 id2 createResp askResp s) = selectedCitation s"
proof (cases "trim (input s) = [] \<or> isLoading s")
  case True
  then show ?thesis by (simp add: submit_def)
next
  case False
  then have turn: "trim (input s) \<noteq> []" "\<not> isLoading s" by simp_all
  let ?idx = "Suc (length (messages s))"
  show ?thesis
  proof (cases "submit_try parse ?idx createResp askResp (open_turn id1 id2 s)")
    case (Inl x)
    obtain e s' where x: "x = (e, s')" by (cases x)
    have "same_outside ?idx (open_turn id1 id2 s) s'"
      using Inl x by (simp add: submit_try_thrown_same_outside)
    then show ?thesis
      using Inl x turn by (simp add: submit_eq same_outside_def)
  next
    case (Inr s')
    have "same_outside ?idx (open_turn id1 id2 s) s'"
      using Inr by (simp add: submit_try_same_outside)
    then show ?thesis
      using Inr turn by (simp add: submit_eq same_outside_def)
  qed
qed

lemma find_by_id_member:
  "find_by_id k cs = Inr (Some c) \<Longrightarrow> c \<in> set cs"
  by (induction cs) (auto split: sum.splits if_splits)

lemma first_or_null_member:
  "first_or_null cs = Some c \<Longrightarrow> c \<in> set cs"
  by (cases cs) (auto split: if_splits)

lemma clear_selection_ok: "selection_ok (clear s)"
  by (simp add: selection_ok_def clear_def)

lemma startNewConversation_selection_ok: "selection_ok (startNewConversation createResp s)"
  by (auto simp: selection_ok_def startNewConversation_def clear_def createConversation_def Let_def
           split: sum.splits response.splits option.splits if_splits)

lemma restore_try_thrown_keeps:
  assumes "restore_try resp s = Inl (e, s')"
  shows "messages s' = messages s \<and> currentCitations s' = currentCitations s \<and>
         selectedCitation s' = selectedCitation s \<and> input s' = input s \<and>
         isLoading s' = isLoading s \<and> error s' = error s"
  using assms
  by (auto simp: restore_try_def Let_def
           split: response.splits if_splits sum.splits option.splits history_payload.splits)

lemma restore_selection_ok:
  assumes "selection_ok s"
  shows "selection_ok (restoreConversationMessages resp s)"
proof -
  have "selection_ok s'" if "restore_try resp s = Inr s'" for s'
    using that assms
    by (auto simp: restore_try_def selection_ok_def Let_def
             split: response.splits if_splits sum.splits option.splits history_payload.splits
             dest: first_or_null_member)
  moreover have "selection_ok (s'\<lparr>error := m\<rparr>)" if "restore_try resp s = Inl (e, s')" for e s' m
    using restore_try_thrown_keeps [OF that] assms
    by (auto simp: selection_ok_def split: option.splits)
  ultimately show ?thesis
    using assms
    by (auto simp: restoreConversationMessages_def split: option.splits sum.splits prod.splits)
qed

lemma handleCitationClick_selection_ok:
  assumes "selection_ok s" and "handleCitationClick k s = Inr s'"
  shows "selection_ok s'"
  using assms
  by (auto simp: handleCitationClick_def selectCitation_def selection_ok_def
           split: sum.splits option.splits if_splits dest: find_by_id_member)

lemma handleMessageClick_cited_selection_ok:
  assumes "has_citations m"
  shows "selection_ok (handleMessageClick m s)"
  using assms
  by (auto simp: handleMessageClick_def selectCitation_def selection_ok_def has_citations_def
           split: option.splits)

lemma handleMessageClick_uncited:
  assumes "\<not> has_citations m"
  shows "handleMessageClick m s = s\<lparr>currentCitations := []\<rparr>"
  using assms
  by (auto simp: handleMessageClick_def has_citations_def split: option.splits)

lemma sample_restored:
  "restoreConversationMessages (Response 200 (Inr (typed_payload sample_page))) (initial_session True (Some ''c-1''))
     = (initial_session True (Some ''c-1''))
         \<lparr>messages := map to_message (page_messages sample_page),
          conversationId := Some (JStr ''c-1''),
          currentCitations := [sample_citation], selectedCitation := Some sample_citation\<rparr>"
  by (simp add: restore_fetches restore_try_def typed_payload_def Let_def initial_session_def
        response_ok_def sample_page_def to_message_def has_citations_def sample_citation_def
        setConversationId_def persistConversationId_def)

subsection \<open>Chunks that hold whole frames\<close>

lemma split_lines_line:
  "CHR 0x0A \<notin> set a \<Longrightarrow> split_lines (a @ CHR 0x0A # rest) = a # split_lines rest"
  by (induction a) (auto split: list.splits)

lemma split_lines_frame:
  assumes "plain_event e"
  shows "split_lines (frame e @ rest) =
           (''event: '' @ fst e) # (''data: '' @ snd e) # [] # split_lines rest"
proof -
  have a: "CHR 0x0A \<notin> set (''event: '' @ fst e)" "CHR 0x0A \<notin> set (''data: '' @ snd e)"
    using assms by (auto simp: plain_event_def)
  have 1: "split_lines ((''event: '' @ fst e) @ CHR 0x0A # x) = (''event: '' @ fst e) # split_lines x"
    for x using a(1) by (rule split_lines_line)
  have 2: "split_lines ((''data: '' @ snd e) @ CHR 0x0A # x) = (''data: '' @ snd e) # split_lines x"
    for x using a(2) by (rule split_lines_line)
  have 3: "split_lines ([] @ CHR 0x0A # rest) = [] # split_lines rest"
    by (rule split_lines_line) simp
  have eq: "frame e @ rest =
      (''event: '' @ fst e) @ CHR 0x0A # ((''data: '' @ snd e) @ CHR 0x0A # ([] @ CHR 0x0A # rest))"
    by (simp add: frame_def)
  show ?thesis
    by (simp only: eq 1 2 3)
qed

lemma split_lines_frames:
  "\<forall>e\<in>set es. plain_event e \<Longrightarrow>
     split_lines (concat (map frame es) @ rest) = frame_lines es @ split_lines rest"
  by (induction es) (simp_all add: split_lines_frame)

lemma decode_lines_frames:
  "\<forall>e\<in>set es. plain_event e \<Longrightarrow>
     decode_lines (frame_lines es @ ls) ([], dat) =
       es @ decode_lines ls ([], if es = [] then dat else [])"
proof (induction es arbitrary: dat)
  case Nil
  then show ?case by simp
next
  case (Cons e es)
  then have p: "fst e \<noteq> []" "snd e \<noteq> []" and rest: "\<forall>e\<in>set es. plain_event e"
    by (simp_all add: plain_event_def)
  have "decode_lines (frame_lines es @ ls) ([], []) = es @ decode_lines ls ([], [])"
    using Cons.IH [OF rest, of "[]"] by simp
  then show ?case
    using p by (cases e) (simp add: startsWith_def Let_def)
qed

text \<open>
  When every chunk holds whole frames, the loop decodes exactly the events of the frames,
  in order: the decoder is right on every chunking whose boundaries fall between frames.
\<close>

lemma decode_chunks_whole_frames:
  assumes "\<forall>g\<in>set groups. \<forall>e\<in>set g. plain_event e"
  shows "decode_chunks [] (map (\<lambda>g. concat (map frame g)) groups) = concat groups"
  using assms
proof (induction groups)
  case Nil
  then show ?case by simp
next
  case (Cons g groups)
  then have g: "\<forall>e\<in>set g. plain_event e" by simp
  have s: "split_lines (concat (map frame g)) = frame_lines g @ [[]]"
    using split_lines_frames [OF g, of "[]"] by simp
  have d: "decode_lines (frame_lines g) ([], []) = g"
    using decode_lines_frames [OF g, of "[]" "[]"] by simp
  show ?case
    using Cons s d by (simp add: Let_def)
qed


lemma decode_chunks_aligned_eq_whole:
  assumes "\<forall>g\<in>set groups. \<forall>e\<in>set g. plain_event e"
  shows "decode_chunks [] (map (\<lambda>g. concat (map frame g)) groups) =
         decode_chunks [] [concat (map frame (concat groups))]"
proof -
  have "\<forall>g\<in>set [concat groups]. \<forall>e\<in>set g. plain_event e"
    using assms by auto
  from decode_chunks_whole_frames [OF this] decode_chunks_whole_frames [OF assms]
  show ?thesis by simp
qed

text \<open>
  A turn that reaches the stream and throws nothing ends with the fragments of the
  decoded \<open>delta\<close> events as content, concatenated in the order of arrival.
\<close>

lemma turn_content_of_decoded_events:
  assumes "trim (input s) \<noteq> []" and "\<not> isLoading s"
    and "conversationId s = Some v" and "js_truthy v" and "response_ok st"
    and "run_events parse (Suc (length (messages s))) (decode_chunks [] vs)
           (False, open_turn id1 id2 s) = Inr t"
  shows "content (last (messages
            (submit parse id1 id2 createResp (Response st (Some (map Chunk vs))) s)))
           = delta_fragments parse (decode_chunks [] vs)"
proof -
  let ?idx = "Suc (length (messages s))"
  obtain c' s' where t: "t = (c', s')" by (cases t)
  have len: "length (messages s') = Suc (Suc (length (messages s)))"
    using run_events_same_outside [OF assms(6)] t by (simp add: same_outside_def)
  have "content (messages s' ! ?idx) =
          content (messages (open_turn id1 id2 s) ! ?idx) @ delta_fragments parse (decode_chunks [] vs)"
    using assms(6) t by (intro run_events_content [where c = False and c' = c']) simp_all
  then have c: "content (messages s' ! ?idx) = delta_fragments parse (decode_chunks [] vs)"
    by simp
  have "submit parse id1 id2 createResp (Response st (Some (map Chunk vs))) s
          = s'\<lparr>isLoading := False\<rparr>"
    using assms t by (simp add: submit_stream)
  moreover have "last (messages s') = messages s' ! ?idx"
  proof -
    have "messages s' \<noteq> []" using len by auto
    then show ?thesis using len by (simp add: last_conv_nth)
  qed
  ultimately show ?thesis
    using c by simp
qed

section \<open>Claims\<close>

text \<open>
  C1. Feeding a well-formed stream in chunks gives the same decoded events as feeding it
  as one chunk. The code does not do this: the stream of one \<open>delta\<close> frame decodes to that
  event when read at once, and to nothing when the read boundary falls between the
  \<open>event:\<close> line and the \<open>data:\<close> line, because \<open>currentEvent\<close> is declared inside the read
  loop and is empty again at the next read.
\<close>

theorem decode_split_between_event_and_data:
  "decode_chunks [] [''event: delta\<newline>data: {\"content\":\"a\"}\<newline>\<newline>'']
     = [(''delta'', ''{\"content\":\"a\"}'')] \<and>
   decode_chunks [] [''event: delta\<newline>'', ''data: {\"content\":\"a\"}\<newline>\<newline>''] = []"
  by (simp add: startsWith_def Let_def)

text \<open>
  C2. The content of the open message at the end of a turn is the concatenation of the
  fragments of the \<open>delta\<close> events the transport delivered, however they were cut into
  chunks. The code does not do this: for the stream of one \<open>delta\<close> frame carrying \<open>a\<close>, cut
  between its two lines, the turn ends without an error and with empty content, while the
  same stream in one chunk gives the content \<open>a\<close>.
\<close>

theorem delta_fragment_lost_when_split:
  "content (last (messages (submit sample_parse ''u1'' ''a1'' (FetchRejected NonError)
      (Response 200 (Some [Chunk ''event: delta\<newline>'',
                           Chunk ''data: {\"content\":\"a\"}\<newline>\<newline>'']))
      sample_session))) = [] \<and>
   error (submit sample_parse ''u1'' ''a1'' (FetchRejected NonError)
      (Response 200 (Some [Chunk ''event: delta\<newline>'',
                           Chunk ''data: {\"content\":\"a\"}\<newline>\<newline>'']))
      sample_session) = None \<and>
   content (last (messages (submit sample_parse ''u1'' ''a1'' (FetchRejected NonError)
      (Response 200 (Some [Chunk ''event: delta\<newline>data: {\"content\":\"a\"}\<newline>\<newline>'']))
      sample_session))) = ''a''"
proof -
  have ok: "response_ok 200" by (simp add: response_ok_def)
  have 1: "submit sample_parse ''u1'' ''a1'' (FetchRejected NonError)
      (Response 200 (Some (map Chunk [''event: delta\<newline>'', ''data: {\"content\":\"a\"}\<newline>\<newline>''])))
      sample_session = (open_turn ''u1'' ''a1'' sample_session)\<lparr>isLoading := False\<rparr>"
    by (subst submit_stream [where v = "JStr ''c-1''"]) (simp_all add: ok startsWith_def Let_def)
  have 2: "submit sample_parse ''u1'' ''a1'' (FetchRejected NonError)
      (Response 200 (Some (map Chunk [''event: delta\<newline>data: {\"content\":\"a\"}\<newline>\<newline>''])))
      sample_session =
      (open_turn ''u1'' ''a1'' sample_session)
        \<lparr>messages := (messages (open_turn ''u1'' ''a1'' sample_session))[Suc 0 :=
            (messages (open_turn ''u1'' ''a1'' sample_session) ! Suc 0)
              \<lparr>content := ''a'', isClarification := Some False\<rparr>],
         isLoading := False\<rparr>"
    by (subst submit_stream [where v = "JStr ''c-1''"])
       (simp_all add: ok startsWith_def Let_def open_turn_def
          dispatch_delta [where d = "JObj [(''content'', JStr ''a'')]" and f = "Some (JStr ''a'')"])
  show ?thesis
    using 1 2 by (simp add: open_turn_def)
qed

text \<open>
  C3. A \<open>citations\<close> event whose payload parses is processed without a throw; it attaches
  the payload's elements to the open message and to \<open>currentCitations\<close> exactly when the
  payload is an array, the clarification flag is false and the content does not contain
  the marker, and it sets both to empty otherwise.
\<close>

theorem citations_attached_iff_not_suppressed:
  assumes "parse p = Inr d" and "idx < length (messages s)"
  shows "\<exists>s'. dispatch parse idx ''citations'' p (c, s) = Inr (c, s') \<and>
           (if isArray d \<and> \<not> c \<and> \<not> includes_str (content (messages s ! idx)) NO_INFO_MARKER
            then citations (messages s' ! idx) = Some (array_elements d) \<and>
                 currentCitations s' = array_elements d
            else citations (messages s' ! idx) = Some [] \<and> currentCitations s' = [])"
  using assms by (auto simp: dispatch_citations)

theorem citations_attached_witness:
  "sample_parse ''[{\"id\":1}]'' = Inr (JArr [sample_citation]) \<and>
   Suc 0 < length (messages (open_turn ''u1'' ''a1'' sample_session)) \<and>
   (\<exists>s'. dispatch sample_parse (Suc 0) ''citations'' ''[{\"id\":1}]''
            (False, open_turn ''u1'' ''a1'' sample_session) = Inr (False, s') \<and>
         citations (messages s' ! Suc 0) = Some [sample_citation] \<and>
         currentCitations s' = [sample_citation])"
proof -
  have p: "sample_parse ''[{\"id\":1}]'' = Inr (JArr [sample_citation])"
    by (simp add: sample_parse_def sample_citation_def)
  have n: "Suc 0 < length (messages (open_turn ''u1'' ''a1'' sample_session))"
    by (simp add: open_turn_def sample_session_def)
  have c: "\<not> includes_str (content (messages (open_turn ''u1'' ''a1'' sample_session) ! Suc 0)) NO_INFO_MARKER"
    by (simp add: open_turn_def sample_session_def NO_INFO_MARKER_def)
  show ?thesis
    using citations_attached_iff_not_suppressed
            [of sample_parse "''[{\"id\":1}]''" "JArr [sample_citation]" "Suc 0"
                "open_turn ''u1'' ''a1'' sample_session" False] p n c
    by simp
qed

text \<open>
  C4. A payload that fails to parse is a failure of that event only, and later events of
  the stream are still decoded and dispatched. The code does not do this: the stream
  below holds a malformed \<open>delta\<close> and then a well-formed one, and the loop throws at the
  first with the session untouched, so the second is never dispatched and the turn ends
  with the failure text.
\<close>

theorem parse_failure_counterexample:
  "decode_chunks []
     [''event: delta\<newline>data: {bad\<newline>\<newline>event: delta\<newline>data: {\"content\":\"b\"}\<newline>\<newline>'']
     = [(''delta'', ''{bad''), (''delta'', ''{\"content\":\"b\"}'')] \<and>
   read_loop sample_parse (Suc 0) []
     [Chunk ''event: delta\<newline>data: {bad\<newline>\<newline>event: delta\<newline>data: {\"content\":\"b\"}\<newline>\<newline>'']
     (False, open_turn ''u1'' ''a1'' sample_session)
     = Inl (ErrorObj ''Unexpected token b in JSON at position 1'',
            open_turn ''u1'' ''a1'' sample_session) \<and>
   content (last (messages (submit sample_parse ''u1'' ''a1'' (FetchRejected NonError)
     (Response 200 (Some
        [Chunk ''event: delta\<newline>data: {bad\<newline>\<newline>event: delta\<newline>data: {\"content\":\"b\"}\<newline>\<newline>'']))
     sample_session))) = FAILURE_TEXT"
proof -
  have dec: "decode_chunks []
     [''event: delta\<newline>data: {bad\<newline>\<newline>event: delta\<newline>data: {\"content\":\"b\"}\<newline>\<newline>'']
     = [(''delta'', ''{bad''), (''delta'', ''{\"content\":\"b\"}'')]"
    by (simp add: startsWith_def Let_def)
  have loop: "read_loop sample_parse (Suc 0) []
     (map Chunk [''event: delta\<newline>data: {bad\<newline>\<newline>event: delta\<newline>data: {\"content\":\"b\"}\<newline>\<newline>''])
     (False, open_turn ''u1'' ''a1'' sample_session)
     = Inl (ErrorObj ''Unexpected token b in JSON at position 1'',
            open_turn ''u1'' ''a1'' sample_session)"
    unfolding read_loop_chunks dec by (simp add: dispatch_parse_error)
  have thrown_try: "submit_try sample_parse (Suc (length (messages sample_session))) (FetchRejected NonError)
     (Response 200 (Some (map Chunk
        [''event: delta\<newline>data: {bad\<newline>\<newline>event: delta\<newline>data: {\"content\":\"b\"}\<newline>\<newline>''])))
     (open_turn ''u1'' ''a1'' sample_session)
     = Inl (ErrorObj ''Unexpected token b in JSON at position 1'',
            open_turn ''u1'' ''a1'' sample_session)"
    using loop by (simp add: submit_try_stream [where v = "JStr ''c-1''"] response_ok_def)
  have "last (messages (submit sample_parse ''u1'' ''a1'' (FetchRejected NonError)
     (Response 200 (Some (map Chunk
        [''event: delta\<newline>data: {bad\<newline>\<newline>event: delta\<newline>data: {\"content\":\"b\"}\<newline>\<newline>''])))
     sample_session)) =
     (messages (open_turn ''u1'' ''a1'' sample_session) ! Suc (length (messages sample_session)))
       \<lparr>content := FAILURE_TEXT\<rparr>"
    by (rule submit_thrown(2) [OF _ _ thrown_try]) simp_all
  then show ?thesis
    using dec loop by simp
qed

text \<open>
  C4, as the code has it. A payload that fails to parse aborts the turn: the read loop
  throws the parser's error with the session as the events before it left it, whatever
  follows in the stream, and in a turn that reached the stream the content of the open
  message becomes the failure text, the error is set and loading is cleared.
\<close>

theorem parse_failure_aborts_turn:
  assumes "decode_chunks [] vs = earlier @ (ev, payload) # later" and "parse payload = Inl m"
    and "trim (input s) \<noteq> []" and "\<not> isLoading s"
    and "conversationId s = Some v" and "js_truthy v" and "response_ok st"
  shows "read_loop parse idx [] (map Chunk vs) t =
           (case run_events parse idx earlier t of
              Inl x \<Rightarrow> Inl x
            | Inr t1 \<Rightarrow> Inl (ErrorObj m, snd t1)) \<and>
         content (last (messages
            (submit parse id1 id2 createResp (Response st (Some (map Chunk vs))) s))) = FAILURE_TEXT \<and>
         error (submit parse id1 id2 createResp (Response st (Some (map Chunk vs))) s) \<noteq> None \<and>
         \<not> isLoading (submit parse id1 id2 createResp (Response st (Some (map Chunk vs))) s)"
proof -
  have loop: "read_loop parse idx [] (map Chunk vs) t =
           (case run_events parse idx earlier t of
              Inl x \<Rightarrow> Inl x
            | Inr t1 \<Rightarrow> Inl (ErrorObj m, snd t1))" for idx t
    using assms(1,2)
    by (simp add: read_loop_chunks run_events_append dispatch_parse_error split: sum.splits)
  obtain e s' where thrown:
    "read_loop parse (Suc (length (messages s))) [] (map Chunk vs) (False, open_turn id1 id2 s)
       = Inl (e, s')"
    unfolding loop
    by (cases "run_events parse (Suc (length (messages s))) earlier (False, open_turn id1 id2 s)")
       auto
  then have thrown_try: "submit_try parse (Suc (length (messages s))) createResp
      (Response st (Some (map Chunk vs))) (open_turn id1 id2 s) = Inl (e, s')"
    using assms(5-7) by (simp add: submit_try_stream)
  note fin = submit_thrown [OF assms(3,4) thrown_try]
  show ?thesis
    using loop fin by simp
qed

theorem parse_failure_aborts_turn_witness:
  "decode_chunks []
     [''event: delta\<newline>data: {\"content\":\"a\"}\<newline>\<newline>event: delta\<newline>data: {bad\<newline>\<newline>event: delta\<newline>data: {\"content\":\"b\"}\<newline>\<newline>'']
     = [(''delta'', ''{\"content\":\"a\"}'')] @ (''delta'', ''{bad'') # [(''delta'', ''{\"content\":\"b\"}'')] \<and>
   sample_parse ''{bad'' = Inl ''Unexpected token b in JSON at position 1'' \<and>
   trim (input sample_session) \<noteq> [] \<and> \<not> isLoading sample_session \<and>
   conversationId sample_session = Some (JStr ''c-1'') \<and> js_truthy (JStr ''c-1'') \<and>
   response_ok 200 \<and>
   content (last (messages (submit sample_parse ''u1'' ''a1'' (FetchRejected NonError)
     (Response 200 (Some (map Chunk
        [''event: delta\<newline>data: {\"content\":\"a\"}\<newline>\<newline>event: delta\<newline>data: {bad\<newline>\<newline>event: delta\<newline>data: {\"content\":\"b\"}\<newline>\<newline>''])))
     sample_session))) = FAILURE_TEXT \<and>
   error (submit sample_parse ''u1'' ''a1'' (FetchRejected NonError)
     (Response 200 (Some (map Chunk
        [''event: delta\<newline>data: {\"content\":\"a\"}\<newline>\<newline>event: delta\<newline>data: {bad\<newline>\<newline>event: delta\<newline>data: {\"content\":\"b\"}\<newline>\<newline>''])))
     sample_session) \<noteq> None"
proof -
  have dec: "decode_chunks []
     [''event: delta\<newline>data: {\"content\":\"a\"}\<newline>\<newline>event: delta\<newline>data: {bad\<newline>\<newline>event: delta\<newline>data: {\"content\":\"b\"}\<newline>\<newline>'']
     = [(''delta'', ''{\"content\":\"a\"}'')] @ (''delta'', ''{bad'') # [(''delta'', ''{\"content\":\"b\"}'')]"
    by (simp add: startsWith_def Let_def)
  have bad: "sample_parse ''{bad'' = Inl ''Unexpected token b in JSON at position 1''"
    by simp
  have ok: "response_ok 200" by (simp add: response_ok_def)
  show ?thesis
    using parse_failure_aborts_turn
        [where parse = sample_parse and s = sample_session and v = "JStr ''c-1''" and st = 200
           and earlier = "[(''delta'', ''{\"content\":\"a\"}'')]" and ev = "''delta''"
           and payload = "''{bad''" and later = "[(''delta'', ''{\"content\":\"b\"}'')]"
           and idx = "Suc 0" and t = "(False, open_turn ''u1'' ''a1'' sample_session)"
           and ?id1.0 = "''u1''" and ?id2.0 = "''a1''" and createResp = "FetchRejected NonError",
         OF dec bad sample_turn(1) sample_turn(2) sample_turn(3) _ ok]
      dec bad ok
    by simp
qed

text \<open>
  C5. In a turn whose request fails outright, the content of the open assistant message
  is the failure text, its citation list is empty, the error is set and loading is
  cleared; loading is cleared at the end of every turn, whatever the responses were.
\<close>

theorem failed_request_overwrites_content:
  assumes "trim (input s) \<noteq> []" and "\<not> isLoading s"
    and "request_fails createResp askResp s"
  shows "last (messages (submit parse id1 id2 createResp askResp s)) =
           \<lparr>message_id = id2, role = Assistant, content = FAILURE_TEXT,
            citations = Some [], isClarification = Some False\<rparr> \<and>
         currentCitations (submit parse id1 id2 createResp askResp s) = [] \<and>
         error (submit parse id1 id2 createResp askResp s) \<noteq> None \<and>
         \<not> isLoading (submit parse id1 id2 createResp askResp s) \<and>
         \<not> isLoading (submit parse id1 id2 anyCreateResp anyAskResp s)"
proof -
  obtain e s' where
    t: "submit_try parse (Suc (length (messages s))) createResp askResp (open_turn id1 id2 s)
          = Inl (e, s')" and
    m: "messages s' = messages (open_turn id1 id2 s)" and
    c: "currentCitations s' = []"
    using submit_try_request_fails
            [OF assms(3), of "open_turn id1 id2 s" parse "Suc (length (messages s))"]
    by auto
  note fin = submit_thrown [OF assms(1,2) t]
  have "last (messages (submit parse id1 id2 createResp askResp s)) =
           \<lparr>message_id = id2, role = Assistant, content = FAILURE_TEXT,
            citations = Some [], isClarification = Some False\<rparr>"
    using fin(2) m by simp
  moreover have "currentCitations (submit parse id1 id2 createResp askResp s) = []"
    using fin(1) c by simp
  moreover have "error (submit parse id1 id2 createResp askResp s) \<noteq> None"
    using fin(1) by simp
  ultimately show ?thesis
    using submit_clears_loading [OF assms(2)] by simp
qed

theorem failed_request_overwrites_content_witness:
  "trim (input sample_session) \<noteq> [] \<and> \<not> isLoading sample_session \<and>
   request_fails (FetchRejected NonError) (Response 503 None) sample_session \<and>
   last (messages (submit sample_parse ''u1'' ''a1'' (FetchRejected NonError) (Response 503 None)
       sample_session)) =
     \<lparr>message_id = ''a1'', role = Assistant, content = FAILURE_TEXT,
      citations = Some [], isClarification = Some False\<rparr> \<and>
   error (submit sample_parse ''u1'' ''a1'' (FetchRejected NonError) (Response 503 None)
       sample_session) \<noteq> None \<and>
   \<not> isLoading (submit sample_parse ''u1'' ''a1'' (FetchRejected NonError) (Response 503 None)
       sample_session)"
proof -
  have f: "request_fails (FetchRejected NonError) (Response 503 None) sample_session"
    by (simp add: request_fails_def ensureConversation_def response_ok_def)
  show ?thesis
    using failed_request_overwrites_content [OF sample_turn(1) sample_turn(2) f,
        of sample_parse "''u1''" "''a1''"] f
    by simp
qed

text \<open>
  C6. When the history request of a restore answers 404, the identity is cleared in
  memory and in storage, the timeline stays as it was (empty, at start-up) and the error
  stays as it was (none, at start-up).
\<close>

theorem restore_not_found_clears_identity:
  assumes "hasWindow s" and "storage s = Some saved" and "saved \<noteq> []"
  shows "restoreConversationMessages (Response 404 body) s =
           s\<lparr>conversationId := None, storage := None\<rparr> \<and>
         conversationId (restoreConversationMessages (Response 404 body) s) = None \<and>
         storage (restoreConversationMessages (Response 404 body) s) = None \<and>
         messages (restoreConversationMessages (Response 404 body) s) = messages s \<and>
         error (restoreConversationMessages (Response 404 body) s) = error s"
  using assms
  by (simp add: restore_fetches restore_try_def setConversationId_def persistConversationId_def)

theorem restore_not_found_witness:
  "hasWindow (initial_session True (Some ''c-9'')) \<and>
   storage (initial_session True (Some ''c-9'')) = Some ''c-9'' \<and> ''c-9'' \<noteq> [] \<and>
   restoreConversationMessages (Response 404 (Inl NonError)) (initial_session True (Some ''c-9''))
     = initial_session True None \<and>
   messages (restoreConversationMessages (Response 404 (Inl NonError))
              (initial_session True (Some ''c-9''))) = [] \<and>
   error (restoreConversationMessages (Response 404 (Inl NonError))
              (initial_session True (Some ''c-9''))) = None"
  using restore_not_found_clears_identity
          [of "initial_session True (Some ''c-9'')" "''c-9''" "Inl NonError"]
  by (simp add: initial_session_def)

text \<open>
  C7. Once a \<open>meta\<close> event carries a true clarification indicator, every later \<open>delta\<close> and
  \<open>citations\<close> event of the turn stamps \<open>isClarification = true\<close>, also after a later \<open>meta\<close>
  event. The code does not do this: every \<open>meta\<close> event assigns the flag anew, so after a
  \<open>meta\<close> with a true indicator and a \<open>meta\<close> without one, a \<open>delta\<close> stamps false.
\<close>

theorem clarification_reset_counterexample:
  "isClarification (last (messages (submit sample_parse ''u1'' ''a1'' (FetchRejected NonError)
     (Response 200 (Some
        [Chunk ''event: meta\<newline>data: {\"needs_clarification\":true}\<newline>\<newline>event: meta\<newline>data: {}\<newline>\<newline>event: delta\<newline>data: {\"content\":\"a\"}\<newline>\<newline>'']))
     sample_session))) = Some False"
proof -
  have "submit sample_parse ''u1'' ''a1'' (FetchRejected NonError)
      (Response 200 (Some (map Chunk
        [''event: meta\<newline>data: {\"needs_clarification\":true}\<newline>\<newline>event: meta\<newline>data: {}\<newline>\<newline>event: delta\<newline>data: {\"content\":\"a\"}\<newline>\<newline>''])))
      sample_session =
      (open_turn ''u1'' ''a1'' sample_session)
        \<lparr>messages := (messages (open_turn ''u1'' ''a1'' sample_session))[Suc 0 :=
            (messages (open_turn ''u1'' ''a1'' sample_session) ! Suc 0)
              \<lparr>content := ''a'', isClarification := Some False\<rparr>],
         isLoading := False\<rparr>"
    by (subst submit_stream [where v = "JStr ''c-1''"])
       (simp_all add: response_ok_def startsWith_def Let_def open_turn_def
          dispatch_meta [where d = "JObj [(''needs_clarification'', JBool True)]"
                           and nc = "Some (JBool True)" and cid = None]
          dispatch_meta [where d = "JObj []" and nc = None and cid = None]
          dispatch_delta [where d = "JObj [(''content'', JStr ''a'')]" and f = "Some (JStr ''a'')"])
  then show ?thesis
    by (simp add: open_turn_def)
qed

text \<open>
  C7, as the code has it. The clarification flag of a turn is the truth value of
  \<open>needs_clarification\<close> in the latest \<open>meta\<close> event: after a \<open>meta\<close> event, every \<open>delta\<close> and
  \<open>citations\<close> event processed before the next \<open>meta\<close> event stamps that value on the open
  message, true for a true indicator and false for a false or absent one.
\<close>

theorem clarification_follows_latest_meta:
  assumes "parse p0 = Inr d" and "js_prop d ''needs_clarification'' = Inr nc"
    and "run_events parse idx ((''meta'', p0) # evs @ [(ev, p)]) (c0, s) = Inr (c', s')"
    and "\<forall>e\<in>set evs. fst e \<noteq> ''meta''"
    and "ev = ''delta'' \<or> ev = ''citations''"
  shows "c' = truthy_opt nc \<and> isClarification (messages s' ! idx) = Some (truthy_opt nc)"
proof -
  from assms(3) obtain c1 s1 where
    m: "dispatch parse idx ''meta'' p0 (c0, s) = Inr (c1, s1)" and
    r: "run_events parse idx (evs @ [(ev, p)]) (c1, s1) = Inr (c', s')"
    by (auto split: sum.splits)
  have c1: "c1 = truthy_opt nc"
    using dispatch_meta_flag [OF m assms(1,2)] .
  from r obtain c2 s2 where
    r2: "run_events parse idx evs (c1, s1) = Inr (c2, s2)" and
    l: "run_events parse idx [(ev, p)] (c2, s2) = Inr (c', s')"
    by (auto simp: run_events_append split: sum.splits)
  have c2: "c2 = c1"
    using run_events_flag_kept [OF r2 assms(4)] .
  from l have "dispatch parse idx ev p (c2, s2) = Inr (c', s')"
    by (auto split: sum.splits)
  from dispatch_stamps_flag [OF this assms(5)] c1 c2 show ?thesis
    by simp
qed

theorem clarification_follows_latest_meta_witness:
  "sample_parse ''{\"needs_clarification\":true}'' = Inr (JObj [(''needs_clarification'', JBool True)]) \<and>
   js_prop (JObj [(''needs_clarification'', JBool True)]) ''needs_clarification'' = Inr (Some (JBool True)) \<and>
   run_events sample_parse (Suc 0)
     ((''meta'', ''{\"needs_clarification\":true}'') # [(''delta'', ''{\"content\":\"a\"}'')] @
        [(''citations'', ''[{\"id\":1}]'')])
     (False, open_turn ''u1'' ''a1'' sample_session)
   = Inr (True,
      (open_turn ''u1'' ''a1'' sample_session)
        \<lparr>currentCitations := [],
         messages := (messages (open_turn ''u1'' ''a1'' sample_session))[Suc 0 :=
            (messages (open_turn ''u1'' ''a1'' sample_session) ! Suc 0)
              \<lparr>content := ''a'', citations := Some [], isClarification := Some True\<rparr>]\<rparr>) \<and>
   isClarification
     (messages ((open_turn ''u1'' ''a1'' sample_session)
        \<lparr>currentCitations := [],
         messages := (messages (open_turn ''u1'' ''a1'' sample_session))[Suc 0 :=
            (messages (open_turn ''u1'' ''a1'' sample_session) ! Suc 0)
              \<lparr>content := ''a'', citations := Some [], isClarification := Some True\<rparr>]\<rparr>) ! Suc 0)
     = Some (truthy_opt (Some (JBool True)))"
proof -
  have p: "sample_parse ''{\"needs_clarification\":true}'' = Inr (JObj [(''needs_clarification'', JBool True)])"
    by simp
  have q: "js_prop (JObj [(''needs_clarification'', JBool True)]) ''needs_clarification'' = Inr (Some (JBool True))"
    by simp
  have nm: "\<forall>e\<in>set [(''delta'', ''{\"content\":\"a\"}'')]. fst e \<noteq> ''meta''"
    by simp
  have run: "run_events sample_parse (Suc 0)
     ((''meta'', ''{\"needs_clarification\":true}'') # [(''delta'', ''{\"content\":\"a\"}'')] @
        [(''citations'', ''[{\"id\":1}]'')])
     (False, open_turn ''u1'' ''a1'' sample_session)
   = Inr (True,
      (open_turn ''u1'' ''a1'' sample_session)
        \<lparr>currentCitations := [],
         messages := (messages (open_turn ''u1'' ''a1'' sample_session))[Suc 0 :=
            (messages (open_turn ''u1'' ''a1'' sample_session) ! Suc 0)
              \<lparr>content := ''a'', citations := Some [], isClarification := Some True\<rparr>]\<rparr>)"
    by (simp add: open_turn_def
          dispatch_meta [where d = "JObj [(''needs_clarification'', JBool True)]"
                           and nc = "Some (JBool True)" and cid = None]
          dispatch_delta [where d = "JObj [(''content'', JStr ''a'')]" and f = "Some (JStr ''a'')"]
          dispatch_citations [where d = "JArr [JObj [(''id'', JNum 1)]]"])
  have c: "''citations'' = ''delta'' \<or> ''citations'' = ''citations''" by simp
  show ?thesis
    using clarification_follows_latest_meta [OF p q run nm c] p q nm run by simp
qed

text \<open>
  C8. After a successful restore the timeline is the fetched page. If it splits into
  earlier messages, an assistant message with at least one citation, and later messages
  none of which is an assistant message with a citation, then \<open>currentCitations\<close> is that
  message's citation list and \<open>selectedCitation\<close> its first citation (a \<open>Citation\<close> object).
  If no assistant message of the page has a citation, both stay as they were.
\<close>

theorem restore_selects_latest_cited_answer:
  assumes "hasWindow s" and "storage s = Some saved" and "saved \<noteq> []"
    and "response_ok st"
  shows "messages (restoreConversationMessages (Response st (Inr (typed_payload payload))) s)
           = map to_message (page_messages payload) \<and>
         (map to_message (page_messages payload) = before @ m # after \<and>
          role m = Assistant \<and> citations m = Some cs \<and> cs \<noteq> [] \<and> is_object (hd cs) \<and>
          (\<forall>x\<in>set after. \<not> (role x = Assistant \<and> has_citations x))
          \<longrightarrow> currentCitations (restoreConversationMessages (Response st (Inr (typed_payload payload))) s) = cs \<and>
              selectedCitation (restoreConversationMessages (Response st (Inr (typed_payload payload))) s)
                = Some (hd cs)) \<and>
         ((\<forall>x\<in>set (map to_message (page_messages payload)).
              \<not> (role x = Assistant \<and> has_citations x))
          \<longrightarrow> currentCitations (restoreConversationMessages (Response st (Inr (typed_payload payload))) s)
                = currentCitations s \<and>
              selectedCitation (restoreConversationMessages (Response st (Inr (typed_payload payload))) s)
                = selectedCitation s)"
proof -
  let ?P = "\<lambda>item. role item = Assistant \<and> has_citations item"
  let ?msgs = "map to_message (page_messages payload)"
  let ?R = "restoreConversationMessages (Response st (Inr (typed_payload payload))) s"
  note eq = restore_success [OF assms, of payload]
  have a: "messages ?R = ?msgs"
    by (simp add: eq split: option.splits)
  have b: "currentCitations ?R = cs \<and> selectedCitation ?R = Some (hd cs)"
    if "?msgs = before @ m # after" "role m = Assistant" "citations m = Some cs" "cs \<noteq> []"
       "is_object (hd cs)" "\<forall>x\<in>set after. \<not> ?P x"
  proof -
    have "?P m" using that(2,3,4) by (simp add: has_citations_def)
    then have "find ?P (rev ?msgs) = Some m"
      unfolding that(1) using that(6) by (rule find_rev_latest)
    then show ?thesis
      using that(3,4,5) by (simp add: eq first_or_null_object)
  qed
  have c: "currentCitations ?R = currentCitations s \<and> selectedCitation ?R = selectedCitation s"
    if "\<forall>x\<in>set ?msgs. \<not> ?P x"
  proof -
    have "find ?P (rev ?msgs) = None"
      using that by (simp add: find_None_iff)
    then show ?thesis by (simp add: eq)
  qed
  from a b c show ?thesis by blast
qed


theorem restore_selects_latest_cited_answer_witness:
  "hasWindow (initial_session True (Some ''c-1'')) \<and>
   storage (initial_session True (Some ''c-1'')) = Some ''c-1'' \<and> ''c-1'' \<noteq> [] \<and>
   response_ok 200 \<and>
   map to_message (page_messages sample_page)
     = 
       [\<lparr>message_id = ''m1'', role = User, content = ''hi'',
          citations = Some [], isClarification = Some False\<rparr>] @ sample_answer #
       [\<lparr>message_id = ''m3'', role = User, content = ''more'',
          citations = Some [], isClarification = Some False\<rparr>,
        \<lparr>message_id = ''m4'', role = Assistant, content = ''Which book?'',
          citations = Some [], isClarification = Some True\<rparr>] \<and>
   currentCitations (restoreConversationMessages (Response 200 (Inr (typed_payload sample_page)))
      (initial_session True (Some ''c-1''))) = [sample_citation] \<and>
   selectedCitation (restoreConversationMessages (Response 200 (Inr (typed_payload sample_page)))
      (initial_session True (Some ''c-1''))) = Some sample_citation \<and>
   currentCitations (restoreConversationMessages
      (Response 200 (Inr (typed_payload
         (sample_page\<lparr>page_messages := drop 2 (page_messages sample_page)\<rparr>))))
      (initial_session True (Some ''c-1''))) = [] \<and>
   selectedCitation (restoreConversationMessages
      (Response 200 (Inr (typed_payload
         (sample_page\<lparr>page_messages := drop 2 (page_messages sample_page)\<rparr>))))
      (initial_session True (Some ''c-1''))) = None"
proof -
  let ?s = "initial_session True (Some ''c-1'')"
  let ?later = "[\<lparr>message_id = ''m3'', role = User, content = ''more'',
          citations = Some [], isClarification = Some False\<rparr>,
        \<lparr>message_id = ''m4'', role = Assistant, content = ''Which book?'',
          citations = Some [], isClarification = Some True\<rparr>]"
  have h: "hasWindow ?s" "storage ?s = Some ''c-1''" "''c-1'' \<noteq> []" "response_ok 200"
    by (simp_all add: initial_session_def response_ok_def)
  have page: "map to_message (page_messages sample_page) = 
       [\<lparr>message_id = ''m1'', role = User, content = ''hi'',
          citations = Some [], isClarification = Some False\<rparr>] @ sample_answer # ?later"
    by (simp add: sample_page_def to_message_def sample_answer_def)
  have found: "role sample_answer = Assistant \<and> citations sample_answer = Some [sample_citation] \<and>
      [sample_citation] \<noteq> [] \<and> is_object (hd [sample_citation]) \<and>
      (\<forall>x\<in>set ?later. \<not> (role x = Assistant \<and> has_citations x))"
    by (simp add: sample_answer_def sample_citation_def has_citations_def)
  have none: "\<forall>x\<in>set (map to_message
        (page_messages (sample_page\<lparr>page_messages := drop 2 (page_messages sample_page)\<rparr>))).
      \<not> (role x = Assistant \<and> has_citations x)"
    by (simp add: sample_page_def to_message_def has_citations_def)
  have init: "currentCitations ?s = []" "selectedCitation ?s = None"
    by (simp_all add: initial_session_def)
  show ?thesis
    using restore_selects_latest_cited_answer
            [OF h, of sample_page "[\<lparr>message_id = ''m1'', role = User, content = ''hi'',
          citations = Some [], isClarification = Some False\<rparr>]" sample_answer ?later "[sample_citation]"]
          restore_selects_latest_cited_answer
            [OF h, of "sample_page\<lparr>page_messages := drop 2 (page_messages sample_page)\<rparr>"]
          h page found none init
    by simp
qed

text \<open>
  C9. After every operation of the session core, \<open>selectedCitation\<close> is null or one of
  \<open>currentCitations\<close>. The code does not keep this: after a restore that selected the
  citation of an earlier answer, a click on a message without citations empties
  \<open>currentCitations\<close> and leaves the selection, and so does a submitted turn that attaches
  no citations.
\<close>

theorem selection_invariant_counterexample:
  "selection_ok (restoreConversationMessages (Response 200 (Inr (typed_payload sample_page)))
      (initial_session True (Some ''c-1''))) \<and>
   \<not> selection_ok (handleMessageClick sample_question
      (restoreConversationMessages (Response 200 (Inr (typed_payload sample_page)))
        (initial_session True (Some ''c-1'')))) \<and>
   \<not> selection_ok (submit sample_parse ''u1'' ''a1'' (FetchRejected NonError) (Response 503 None)
      ((restoreConversationMessages (Response 200 (Inr (typed_payload sample_page)))
        (initial_session True (Some ''c-1'')))\<lparr>input := ''hi''\<rparr>))"
proof -
  let ?r = "restoreConversationMessages (Response 200 (Inr (typed_payload sample_page)))
      (initial_session True (Some ''c-1''))"
  have a: "selection_ok ?r"
    by (simp add: sample_restored selection_ok_def)
  have b: "\<not> selection_ok (handleMessageClick sample_question ?r)"
    by (simp add: sample_restored selection_ok_def handleMessageClick_def sample_question_def)
  have turn: "trim (input (?r\<lparr>input := ''hi''\<rparr>)) \<noteq> []" "\<not> isLoading (?r\<lparr>input := ''hi''\<rparr>)"
    unfolding sample_restored by (simp_all add: trim_def is_space_def initial_session_def)
  have f: "request_fails (FetchRejected NonError) (Response 503 None) (?r\<lparr>input := ''hi''\<rparr>)"
    unfolding sample_restored
    by (simp add: request_fails_def ensureConversation_def response_ok_def)
  have sel: "selectedCitation (submit sample_parse ''u1'' ''a1'' (FetchRejected NonError)
      (Response 503 None) (?r\<lparr>input := ''hi''\<rparr>)) = Some sample_citation"
    by (simp add: submit_keeps_selection sample_restored)
  obtain e s' where
    t: "submit_try sample_parse (Suc (length (messages (?r\<lparr>input := ''hi''\<rparr>))))
          (FetchRejected NonError) (Response 503 None) (open_turn ''u1'' ''a1'' (?r\<lparr>input := ''hi''\<rparr>))
          = Inl (e, s')" and
    c: "currentCitations s' = []"
    using submit_try_request_fails
            [OF f, of "open_turn ''u1'' ''a1'' (?r\<lparr>input := ''hi''\<rparr>)" sample_parse
               "Suc (length (messages (?r\<lparr>input := ''hi''\<rparr>)))"]
    by auto
  have cur: "currentCitations (submit sample_parse ''u1'' ''a1'' (FetchRejected NonError)
      (Response 503 None) (?r\<lparr>input := ''hi''\<rparr>)) = []"
    using submit_thrown(1) [OF turn t] c by simp
  from a b sel cur show ?thesis
    by (simp add: selection_ok_def)
qed

text \<open>
  C9, as the code has it. The invariant holds in the initial state and after \<open>clear\<close>,
  \<open>startNewConversation\<close> and a click on a message that has citations; \<open>restore\<close> and the
  click on a citation marker preserve it. After \<open>submit\<close> and after a click on a message
  without citations it holds whenever nothing was selected before the operation.
\<close>

theorem selection_invariant_by_operation:
  "selection_ok (initial_session w st) \<and>
   selection_ok (clear s) \<and>
   selection_ok (startNewConversation createResp s) \<and>
   (has_citations m \<longrightarrow> selection_ok (handleMessageClick m s)) \<and>
   (selection_ok s \<longrightarrow> selection_ok (restoreConversationMessages resp s)) \<and>
   (selection_ok s \<and> handleCitationClick k s = Inr s' \<longrightarrow> selection_ok s') \<and>
   (selectedCitation s = None \<longrightarrow>
      selection_ok (submit parse id1 id2 createResp askResp s) \<and>
      selection_ok (handleMessageClick m s))"
proof -
  have "selection_ok (initial_session w st)"
    by (simp add: selection_ok_def initial_session_def)
  moreover have "selection_ok (submit parse id1 id2 createResp askResp s)"
    if "selectedCitation s = None"
    using that by (simp add: selection_ok_def submit_keeps_selection)
  moreover have "selection_ok (handleMessageClick m s)" if "selectedCitation s = None"
  proof (cases "has_citations m")
    case True
    then show ?thesis by (rule handleMessageClick_cited_selection_ok)
  next
    case False
    then show ?thesis
      using that by (simp add: handleMessageClick_uncited selection_ok_def)
  qed
  ultimately show ?thesis
    using clear_selection_ok startNewConversation_selection_ok restore_selection_ok
      handleCitationClick_selection_ok handleMessageClick_cited_selection_ok
    by blast
qed

theorem selection_invariant_by_operation_witness:
  "has_citations sample_answer \<and> \<not> has_citations sample_question \<and>
   selection_ok (handleMessageClick sample_answer (initial_session True None)) \<and>
   handleCitationClick 1 (handleMessageClick sample_answer (initial_session True None))
     = Inr (handleMessageClick sample_answer (initial_session True None)) \<and>
   selectedCitation (initial_session True None) = None \<and>
   selection_ok (restoreConversationMessages (Response 404 (Inl NonError))
      (handleMessageClick sample_answer (initial_session True None))) \<and>
   selection_ok (submit sample_parse ''u1'' ''a1'' (FetchRejected NonError) (Response 503 None)
      (initial_session True None)) \<and>
   selection_ok (handleMessageClick sample_question (initial_session True None))"
proof -
  let ?s = "handleMessageClick sample_answer (initial_session True None)"
  have c: "has_citations sample_answer" "\<not> has_citations sample_question"
    by (simp_all add: has_citations_def sample_answer_def sample_question_def)
  have s: "?s = (initial_session True None)
      \<lparr>currentCitations := [sample_citation], selectedCitation := Some sample_citation\<rparr>"
    by (simp add: handleMessageClick_def sample_answer_def selectCitation_def sample_citation_def)
  have k: "handleCitationClick 1 ?s = Inr ?s"
    unfolding s
    by (simp add: handleCitationClick_def sample_citation_def selectCitation_def)
  have n: "selectedCitation (initial_session True None) = None"
    by (simp add: initial_session_def)
  note at_start = selection_invariant_by_operation
      [of True None "initial_session True None" "FetchRejected NonError" sample_answer
          "Response 404 (Inl NonError)" 1 ?s sample_parse "''u1''" "''a1''" "Response 503 None"]
  note at_start_question = selection_invariant_by_operation
      [of True None "initial_session True None" "FetchRejected NonError" sample_question
          "Response 404 (Inl NonError)" 1 ?s sample_parse "''u1''" "''a1''" "Response 503 None"]
  note selected = selection_invariant_by_operation
      [of True None ?s "FetchRejected NonError" sample_answer
          "Response 404 (Inl NonError)" 1 ?s sample_parse "''u1''" "''a1''" "Response 503 None"]
  have ok: "selection_ok ?s"
    using at_start c(1) by blast
  have "selection_ok (restoreConversationMessages (Response 404 (Inl NonError)) ?s)"
    using selected ok by blast
  moreover have "selection_ok (submit sample_parse ''u1'' ''a1'' (FetchRejected NonError)
      (Response 503 None) (initial_session True None))"
    using at_start n by blast
  moreover have "selection_ok (handleMessageClick sample_question (initial_session True None))"
    using at_start_question n by blast
  ultimately show ?thesis
    using c k n ok by blast
qed

text \<open>
  C10. When the history request of a restore fails with a status that is neither 404 nor
  a success, or with a thrown error, the session is left as it was except for the error
  message. The code does not keep this for every throw: a 200 body that carries a
  \<open>conversation_id\<close> and no \<open>messages\<close> array throws when the messages are mapped, after the
  identity of the body has been written to memory and to storage.
\<close>

theorem restore_failure_counterexample:
  "conversationId (initial_session True (Some ''c-1'')) = None \<and>
   storage (initial_session True (Some ''c-1'')) = Some ''c-1'' \<and>
   conversationId (restoreConversationMessages
      (Response 200 (Inr (Payload (Some (JStr ''c-new'')) None)))
      (initial_session True (Some ''c-1''))) = Some (JStr ''c-new'') \<and>
   storage (restoreConversationMessages
      (Response 200 (Inr (Payload (Some (JStr ''c-new'')) None)))
      (initial_session True (Some ''c-1''))) = Some ''c-new'' \<and>
   error (restoreConversationMessages
      (Response 200 (Inr (Payload (Some (JStr ''c-new'')) None)))
      (initial_session True (Some ''c-1''))) = Some (message_or RESTORE_FAILED (undefined_read_error ''map''))"
  by (simp add: restoreConversationMessages_def restore_try_def initial_session_def
        response_ok_def setConversationId_def persistConversationId_def)

text \<open>
  C10, as the code has it. When the history request is rejected, answers with a status
  that is neither 404 nor a success, or yields a body that is no JSON or is \<open>null\<close>, the
  session is left as it was except for the error message. For every throw of a restore,
  also one raised while the messages of the body are mapped, the timeline,
  \<open>currentCitations\<close> and \<open>selectedCitation\<close> keep their values and the error message is set.
\<close>

theorem restore_failure_changes_only_error:
  assumes "hasWindow s" and "storage s = Some saved" and "saved \<noteq> []"
  shows "(history_fetch_fails resp \<longrightarrow>
            (\<exists>m. restoreConversationMessages resp s = s\<lparr>error := Some m\<rparr>)) \<and>
         (restore_throws resp s \<longrightarrow>
            messages (restoreConversationMessages resp s) = messages s \<and>
            currentCitations (restoreConversationMessages resp s) = currentCitations s \<and>
            selectedCitation (restoreConversationMessages resp s) = selectedCitation s \<and>
            error (restoreConversationMessages resp s) \<noteq> None)"
proof -
  have a: "\<exists>m. restoreConversationMessages resp s = s\<lparr>error := Some m\<rparr>"
    if "history_fetch_fails resp"
    using that assms
    by (auto simp: restore_fetches restore_try_def history_fetch_fails_def
             split: response.splits sum.splits history_payload.splits)
  have b: "messages (restoreConversationMessages resp s) = messages s \<and>
           currentCitations (restoreConversationMessages resp s) = currentCitations s \<and>
           selectedCitation (restoreConversationMessages resp s) = selectedCitation s \<and>
           error (restoreConversationMessages resp s) \<noteq> None"
    if "restore_throws resp s"
  proof -
    from that obtain e s' where t: "restore_try resp s = Inl (e, s')"
      by (auto simp: restore_throws_def split: sum.splits)
    from restore_try_thrown_keeps [OF t] show ?thesis
      using assms t by (simp add: restore_fetches)
  qed
  from a b show ?thesis by blast
qed

theorem restore_failure_witness:
  "hasWindow sample_session \<and> storage sample_session = Some ''c-1'' \<and> ''c-1'' \<noteq> [] \<and>
   history_fetch_fails (Response 500 (Inl NonError)) \<and>
   (\<exists>m. restoreConversationMessages (Response 500 (Inl NonError)) sample_session
          = sample_session\<lparr>error := Some m\<rparr>) \<and>
   restore_throws (Response 200 (Inr (Payload (Some (JStr ''c-new'')) (Some [NullItem]))))
      sample_session \<and>
   messages (restoreConversationMessages
      (Response 200 (Inr (Payload (Some (JStr ''c-new'')) (Some [NullItem])))) sample_session)
     = messages sample_session \<and>
   error (restoreConversationMessages
      (Response 200 (Inr (Payload (Some (JStr ''c-new'')) (Some [NullItem])))) sample_session)
     \<noteq> None"
proof -
  have f: "history_fetch_fails (Response 500 (Inl NonError))"
    by (simp add: history_fetch_fails_def response_ok_def)
  have t: "restore_throws (Response 200 (Inr (Payload (Some (JStr ''c-new'')) (Some [NullItem]))))
      sample_session"
    by (simp add: restore_throws_def restore_try_def response_ok_def)
  have h: "hasWindow sample_session" "storage sample_session = Some ''c-1''" "''c-1'' \<noteq> []"
    by (simp_all add: sample_session_def)
  note failed = restore_failure_changes_only_error [OF h, of "Response 500 (Inl NonError)"]
  note thrown = restore_failure_changes_only_error
      [OF h, of "Response 200 (Inr (Payload (Some (JStr ''c-new'')) (Some [NullItem])))"]
  show ?thesis
    using failed thrown f t h by blast
qed

end
